theory Spec2Isabelle
  imports Complex_Main
begin

section \<open>Tensors of the WaveNet model (network.py)\<close>

text \<open>
  An audio tensor has shape (batch, channel, time). It is kept as its three sizes and
  an indexing function; only indices inside the sizes are ever meaningful. Samples are
  32-bit floats in the source and real numbers here: the properties below concern
  shapes and which input samples an output sample reads, not rounding.
\<close>

datatype error = RuntimeError | TypeError

record tensor =
  batch :: nat
  channels :: nat
  len :: nat
  elem :: "nat \<Rightarrow> nat \<Rightarrow> nat \<Rightarrow> real"

definition same_shape :: "tensor \<Rightarrow> tensor \<Rightarrow> bool" where
  "same_shape x y = (batch x = batch y \<and> channels x = channels y \<and> len x = len y)"

definition shape_of :: "tensor \<Rightarrow> nat \<times> nat \<times> nat" where
  "shape_of x = (batch x, channels x, len x)"

text \<open>The temporal length of a result, when there is one.\<close>

definition result_len :: "error + tensor \<Rightarrow> nat option" where
  "result_len r = (case r of Inl e \<Rightarrow> None | Inr y \<Rightarrow> Some (len y))"

text \<open>Zero padding of \<open>p\<close> samples on both sides of the time axis, read at position \<open>j\<close>.\<close>

definition padded :: "nat \<Rightarrow> tensor \<Rightarrow> nat \<Rightarrow> nat \<Rightarrow> nat \<Rightarrow> real" where
  "padded p x b c j = (if p \<le> j \<and> j < p + len x then elem x b c (j - p) else 0)"

text \<open>\<open>x[:, :, :-n]\<close>: Python reads the stop \<open>-0\<close> as \<open>0\<close>, so \<open>n = 0\<close> keeps nothing.\<close>

definition drop_last :: "nat \<Rightarrow> tensor \<Rightarrow> tensor" where
  "drop_last n x = x\<lparr>len := (if n = 0 then 0 else len x - n)\<rparr>"

text \<open>\<open>x[:, :, -n:]\<close>: the start \<open>-0\<close> is \<open>0\<close> (everything is kept), and a start before the
  beginning is clamped to it.\<close>

definition keep_last :: "nat \<Rightarrow> tensor \<Rightarrow> tensor" where
  "keep_last n x =
     (let start = (if n = 0 then 0 else len x - n)
      in x\<lparr>len := len x - start, elem := (\<lambda>b c t. elem x b c (t + start))\<rparr>)"

definition pointwise :: "(real \<Rightarrow> real) \<Rightarrow> tensor \<Rightarrow> tensor" where
  "pointwise f x = x\<lparr>elem := (\<lambda>b c t. f (elem x b c t))\<rparr>"

definition sigmoid :: "real \<Rightarrow> real" where
  "sigmoid v = 1 / (1 + exp (- v))"

definition relu :: "real \<Rightarrow> real" where
  "relu v = max 0 v"

text \<open>Broadcasting of one dimension: equal sizes, or one of them is 1.\<close>

definition bdim :: "nat \<Rightarrow> nat \<Rightarrow> nat option" where
  "bdim m n = (if m = n then Some m else if m = 1 then Some n else if n = 1 then Some m else None)"

definition bidx :: "nat \<Rightarrow> nat \<Rightarrow> nat" where
  "bidx d i = (if d = 1 then 0 else i)"

definition binop :: "(real \<Rightarrow> real \<Rightarrow> real) \<Rightarrow> tensor \<Rightarrow> tensor \<Rightarrow> error + tensor" where
  "binop f x y =
     (case (bdim (batch x) (batch y), bdim (channels x) (channels y), bdim (len x) (len y)) of
        (Some b, Some c, Some t) \<Rightarrow>
          Inr \<lparr>batch = b, channels = c, len = t,
               elem = (\<lambda>i j k. f (elem x (bidx (batch x) i) (bidx (channels x) j) (bidx (len x) k))
                                  (elem y (bidx (batch y) i) (bidx (channels y) j) (bidx (len y) k)))\<rparr>
      | _ \<Rightarrow> Inl RuntimeError)"

text \<open>An in-place operation keeps the shape of its left operand, or fails.\<close>

definition inplace :: "(real \<Rightarrow> real \<Rightarrow> real) \<Rightarrow> tensor \<Rightarrow> tensor \<Rightarrow> error + tensor" where
  "inplace f x y =
     (case binop f x y of
        Inl e \<Rightarrow> Inl e
      | Inr z \<Rightarrow> if same_shape z x then Inr z else Inl RuntimeError)"

subsection \<open>torch.nn.Conv1d with stride 1\<close>

text \<open>
  The library layer the source builds on: a cross-correlation over the zero-padded
  input, \<open>out[b, co, t] = bias[co] + \<Sum> ci k. weight[co, ci, k] * xpad[b, ci, t + k * dilation]\<close>,
  of length \<open>T + 2 * padding - dilation * (kernel_size - 1)\<close>. It rejects an input with
  the wrong number of channels, a dilation of 0, an input with no sample, and one whose
  padded length is below the extent of the dilated kernel. The initial weights are
  drawn at random by the library; they are a parameter here.
\<close>

record conv_init =
  init_weight :: "nat \<Rightarrow> nat \<Rightarrow> nat \<Rightarrow> real"
  init_bias :: "nat \<Rightarrow> real"

record Conv1d =
  in_channels :: nat
  out_channels :: nat
  kernel_size :: nat
  padding :: nat
  dilation :: nat
  weight :: "nat \<Rightarrow> nat \<Rightarrow> nat \<Rightarrow> real"
  bias :: "(nat \<Rightarrow> real) option"

definition Conv1d_init ::
  "nat \<Rightarrow> nat \<Rightarrow> nat \<Rightarrow> nat \<Rightarrow> nat \<Rightarrow> bool \<Rightarrow> conv_init \<Rightarrow> Conv1d" where
  "Conv1d_init cin cout k p d has_bias prm =
     \<lparr>in_channels = cin, out_channels = cout, kernel_size = k, padding = p, dilation = d,
      weight = init_weight prm, bias = (if has_bias then Some (init_bias prm) else None)\<rparr>"

definition conv_at :: "Conv1d \<Rightarrow> tensor \<Rightarrow> nat \<Rightarrow> nat \<Rightarrow> nat \<Rightarrow> real" where
  "conv_at m x b co t =
     (case bias m of None \<Rightarrow> 0 | Some bs \<Rightarrow> bs co) +
     (\<Sum>ci\<leftarrow>[0..<in_channels m]. \<Sum>k\<leftarrow>[0..<kernel_size m].
        weight m co ci k * padded (padding m) x b ci (t + k * dilation m))"

definition Conv1d_forward :: "Conv1d \<Rightarrow> tensor \<Rightarrow> error + tensor" where
  "Conv1d_forward m x =
     (if channels x \<noteq> in_channels m then Inl RuntimeError
      else if dilation m = 0 then Inl RuntimeError
      else if len x = 0 then Inl RuntimeError
      else if len x + 2 * padding m < dilation m * (kernel_size m - 1) + 1 then Inl RuntimeError
      else Inr \<lparr>batch = batch x, channels = out_channels m,
                len = len x + 2 * padding m - dilation m * (kernel_size m - 1),
                elem = conv_at m x\<rparr>)"

subsection \<open>DilatedCausalConv1d\<close>

record DilatedCausalConv1d =
  dc_padding :: nat
  dc_conv :: Conv1d

definition DilatedCausalConv1d_init :: "nat \<Rightarrow> nat \<Rightarrow> nat \<Rightarrow> conv_init \<Rightarrow> DilatedCausalConv1d" where
  "DilatedCausalConv1d_init cin cout d prm =
     \<lparr>dc_padding = d, dc_conv = Conv1d_init cin cout 2 d d False prm\<rparr>"

definition DilatedCausalConv1d_forward :: "DilatedCausalConv1d \<Rightarrow> tensor \<Rightarrow> error + tensor" where
  "DilatedCausalConv1d_forward m input =
     (case Conv1d_forward (dc_conv m) input of
        Inl e \<Rightarrow> Inl e
      | Inr output \<Rightarrow> Inr (drop_last (dc_padding m) output))"

subsection \<open>ResidualBlock\<close>

definition and_then :: "'e + 'a \<Rightarrow> ('a \<Rightarrow> 'e + 'b) \<Rightarrow> 'e + 'b" where
  "and_then r f = (case r of Inl e \<Rightarrow> Inl e | Inr v \<Rightarrow> f v)"

record block_init =
  init_dilated :: conv_init
  init_tanh :: conv_init
  init_sigmoid :: conv_init
  init_residual :: conv_init
  init_skip :: conv_init

record ResidualBlock =
  dilated_conv :: DilatedCausalConv1d
  tanh_conv :: Conv1d
  sigmoid_conv :: Conv1d
  residual_conv :: Conv1d
  skip_conv :: Conv1d

text \<open>The four pointwise layers take the library's defaults: no padding, dilation 1, a bias.\<close>

definition ResidualBlock_init :: "nat \<Rightarrow> nat \<Rightarrow> nat \<Rightarrow> nat \<Rightarrow> block_init \<Rightarrow> ResidualBlock" where
  "ResidualBlock_init residual_channels dilation_channels skip_channels d prm =
     \<lparr>dilated_conv =
        DilatedCausalConv1d_init residual_channels residual_channels d (init_dilated prm),
      tanh_conv = Conv1d_init residual_channels dilation_channels 1 0 1 True (init_tanh prm),
      sigmoid_conv = Conv1d_init residual_channels dilation_channels 1 0 1 True (init_sigmoid prm),
      residual_conv = Conv1d_init dilation_channels residual_channels 1 0 1 True (init_residual prm),
      skip_conv = Conv1d_init dilation_channels skip_channels 1 0 1 True (init_skip prm)\<rparr>"

text \<open>The line that would cut the skip path to its last \<open>skip_size\<close> samples is commented
  out in the source, so \<open>skip_size\<close> is received and not read.\<close>

definition ResidualBlock_forward ::
  "ResidualBlock \<Rightarrow> tensor \<Rightarrow> int \<Rightarrow> error + tensor \<times> tensor" where
  "ResidualBlock_forward m input skip_size =
     and_then (DilatedCausalConv1d_forward (dilated_conv m) input) (\<lambda>output.
     and_then (Conv1d_forward (tanh_conv m) output) (\<lambda>gated_tanh.
     and_then (Conv1d_forward (sigmoid_conv m) output) (\<lambda>gated_sigmoid.
     and_then (binop (*) (pointwise tanh gated_tanh) (pointwise sigmoid gated_sigmoid)) (\<lambda>gated.
     and_then (Conv1d_forward (residual_conv m) gated) (\<lambda>res.
     and_then (inplace (+) res (keep_last (len res) input)) (\<lambda>res_sum.
     and_then (Conv1d_forward (skip_conv m) gated) (\<lambda>skip.
     Inr (res_sum, skip))))))))"

subsection \<open>ResidualStack\<close>

record ResidualStack =
  layer_size :: nat
  stack_size :: nat
  res_blocks :: "ResidualBlock list"

text \<open>\<open>[2 ** i for i in range(layer_size)] * stack_size\<close>. The two sizes are counts; Python's
  \<open>range\<close> and list repetition treat a negative count like zero.\<close>

definition build_dilations :: "nat \<Rightarrow> nat \<Rightarrow> nat list" where
  "build_dilations L S = concat (replicate S (map (\<lambda>i. 2 ^ i) [0..<L]))"

definition stack_res_blocks ::
  "nat \<Rightarrow> nat \<Rightarrow> nat \<Rightarrow> nat \<Rightarrow> nat \<Rightarrow> (nat \<Rightarrow> block_init) \<Rightarrow> ResidualBlock list" where
  "stack_res_blocks L S residual_channels dilation_channels skip_channels prm =
     map (\<lambda>(i, d). ResidualBlock_init residual_channels dilation_channels skip_channels d (prm i))
       (enumerate 0 (build_dilations L S))"

definition ResidualStack_init ::
  "nat \<Rightarrow> nat \<Rightarrow> nat \<Rightarrow> nat \<Rightarrow> nat \<Rightarrow> (nat \<Rightarrow> block_init) \<Rightarrow> ResidualStack" where
  "ResidualStack_init L S residual_channels dilation_channels skip_channels prm =
     \<lparr>layer_size = L, stack_size = S,
      res_blocks = stack_res_blocks L S residual_channels dilation_channels skip_channels prm\<rparr>"

text \<open>The accumulator starts as the Python integer 0 and becomes a tensor at the first
  \<open>sum += skip\<close>; with no block it is returned as the integer.\<close>

datatype pyval = PyInt int | Tensor tensor

definition py_iadd :: "pyval \<Rightarrow> tensor \<Rightarrow> error + pyval" where
  "py_iadd acc skip =
     (case acc of
        PyInt i \<Rightarrow> Inr (Tensor (pointwise (\<lambda>v. real_of_int i + v) skip))
      | Tensor t \<Rightarrow> and_then (inplace (+) t skip) (\<lambda>r. Inr (Tensor r)))"

fun stack_loop :: "ResidualBlock list \<Rightarrow> int \<Rightarrow> tensor \<Rightarrow> pyval \<Rightarrow> error + pyval" where
  "stack_loop [] skip_size output acc = Inr acc"
| "stack_loop (res_block # rest) skip_size output acc =
     and_then (ResidualBlock_forward res_block output skip_size) (\<lambda>(output', skip).
     and_then (py_iadd acc skip) (\<lambda>acc'.
     stack_loop rest skip_size output' acc'))"

definition ResidualStack_forward :: "ResidualStack \<Rightarrow> tensor \<Rightarrow> int \<Rightarrow> error + pyval" where
  "ResidualStack_forward m input skip_size = stack_loop (res_blocks m) skip_size input (PyInt 0)"

subsection \<open>PostProcess\<close>

record PostProcess =
  conv1 :: Conv1d
  conv2 :: Conv1d

definition PostProcess_init :: "nat \<Rightarrow> nat \<Rightarrow> nat \<Rightarrow> conv_init \<Rightarrow> conv_init \<Rightarrow> PostProcess" where
  "PostProcess_init skip_channels end_channels chans prm1 prm2 =
     \<lparr>conv1 = Conv1d_init skip_channels end_channels 1 0 1 True prm1,
      conv2 = Conv1d_init end_channels chans 1 0 1 True prm2\<rparr>"

definition PostProcess_forward :: "PostProcess \<Rightarrow> pyval \<Rightarrow> error + tensor" where
  "PostProcess_forward m input =
     (case input of
        PyInt i \<Rightarrow> Inl TypeError
      | Tensor x \<Rightarrow>
          and_then (Conv1d_forward (conv1 m) (pointwise relu x)) (\<lambda>output.
          and_then (Conv1d_forward (conv2 m) (pointwise relu output)) (\<lambda>output'.
          Inr (pointwise sigmoid output'))))"

subsection \<open>Wavenet\<close>

text \<open>
  \<open>np.sum\<close> turns the list of Python integers into an array of the platform integer,
  64 bits signed, and adds modulo \<open>2 ^ 64\<close> without raising on overflow; \<open>int\<close> reads the
  result back. What it does with a list holding an integer outside that range (a
  wider array type) is not fixed here: it is the parameter \<open>wide\<close>.
\<close>

definition int64_wrap :: "int \<Rightarrow> int" where
  "int64_wrap v = (v + 2 ^ 63) mod 2 ^ 64 - 2 ^ 63"

definition fits_int64 :: "int \<Rightarrow> bool" where
  "fits_int64 v = (- (2 ^ 63) \<le> v \<and> v < 2 ^ 63)"

definition np_sum :: "(int list \<Rightarrow> int) \<Rightarrow> int list \<Rightarrow> int" where
  "np_sum wide xs = (if list_all fits_int64 xs then int64_wrap (sum_list xs) else wide xs)"

definition calc_receptive_field :: "(int list \<Rightarrow> int) \<Rightarrow> nat \<Rightarrow> nat \<Rightarrow> int" where
  "calc_receptive_field wide L S =
     (let layers = concat (replicate S (map (\<lambda>i. 2 ^ i) [0..<L]))
      in np_sum wide layers)"

record wavenet_init =
  init_causal :: conv_init
  init_blocks :: "nat \<Rightarrow> block_init"
  init_conv1 :: conv_init
  init_conv2 :: conv_init

record Wavenet =
  receptive_field :: int
  causal :: DilatedCausalConv1d
  res_stacks :: ResidualStack
  post :: PostProcess

definition Wavenet_init ::
  "(int list \<Rightarrow> int) \<Rightarrow> nat \<Rightarrow> nat \<Rightarrow> nat \<Rightarrow> nat \<Rightarrow> nat \<Rightarrow> nat \<Rightarrow> nat \<Rightarrow> wavenet_init \<Rightarrow> Wavenet" where
  "Wavenet_init wide L S chans residual_channels dilation_channels skip_channels end_channels prm =
     \<lparr>receptive_field = calc_receptive_field wide L S,
      causal = DilatedCausalConv1d_init chans residual_channels 1 (init_causal prm),
      res_stacks =
        ResidualStack_init L S residual_channels dilation_channels skip_channels (init_blocks prm),
      post = PostProcess_init skip_channels end_channels chans (init_conv1 prm) (init_conv2 prm)\<rparr>"

definition calc_output_size :: "Wavenet \<Rightarrow> tensor \<Rightarrow> int" where
  "calc_output_size m input = int (len input) - receptive_field m"

definition Wavenet_forward :: "Wavenet \<Rightarrow> tensor \<Rightarrow> error + tensor" where
  "Wavenet_forward m input =
     (let output_size = calc_output_size m input
      in and_then (DilatedCausalConv1d_forward (causal m) input) (\<lambda>output.
         and_then (ResidualStack_forward (res_stacks m) output output_size) (\<lambda>acc.
         PostProcess_forward (post m) acc)))"

section \<open>Spectral normalisation (Model.py)\<close>

text \<open>
  A TensorFlow tensor of any rank is its list of sizes and its values in row-major
  order; a matrix is its two sizes and an indexing function. Values are real numbers in
  place of 32-bit floats, so \<open>1e-12\<close> is the exact fraction. The one division whose
  divisor can be zero is the last, by the estimate \<open>sigma\<close>: there the entries, if the
  tensor has any, are infinities or NaNs, which no real number stands for, and the
  result holds no tensor.
\<close>

datatype tf_error = ValueError | IndexError | ZeroDivisionError

record ndarray =
  dims :: "nat list"
  flat :: "nat \<Rightarrow> real"

record matrix =
  nrows :: nat
  ncols :: nat
  entry :: "nat \<Rightarrow> nat \<Rightarrow> real"

definition ITERS :: int where
  "ITERS = 1"

text \<open>The argument \<open>update_collection\<close>: Python's \<open>None\<close>, the module's own string object
  \<open>NO_OPS\<close>, or any other string object, the name of a collection. The source tells the
  second from the third by identity (\<open>is not NO_OPS\<close>), so a name spelled like \<open>NO_OPS\<close> is
  still a name.\<close>

datatype collection_arg = PyNone | NO_OPS | Collection string

definition mat_mul :: "matrix \<Rightarrow> matrix \<Rightarrow> matrix" where
  "mat_mul a b =
     \<lparr>nrows = nrows a, ncols = ncols b,
      entry = (\<lambda>i j. \<Sum>k\<leftarrow>[0..<ncols a]. entry a i k * entry b k j)\<rparr>"

definition matmul :: "matrix \<Rightarrow> matrix \<Rightarrow> tf_error + matrix" where
  "matmul a b = (if ncols a = nrows b then Inr (mat_mul a b) else Inl ValueError)"

definition mat_transpose :: "matrix \<Rightarrow> matrix" where
  "mat_transpose a = \<lparr>nrows = ncols a, ncols = nrows a, entry = (\<lambda>i j. entry a j i)\<rparr>"

definition mat_scale :: "matrix \<Rightarrow> real \<Rightarrow> matrix" where
  "mat_scale a d = a\<lparr>entry := (\<lambda>i j. entry a i j / d)\<rparr>"

definition zeros :: "nat \<Rightarrow> nat \<Rightarrow> matrix" where
  "zeros m n = \<lparr>nrows = m, ncols = n, entry = (\<lambda>i j. 0)\<rparr>"

definition reduce_sum :: "matrix \<Rightarrow> real" where
  "reduce_sum a = (\<Sum>i\<leftarrow>[0..<nrows a]. \<Sum>j\<leftarrow>[0..<ncols a]. entry a i j)"

definition squares :: "matrix \<Rightarrow> matrix" where
  "squares a = a\<lparr>entry := (\<lambda>i j. (entry a i j)\<^sup>2)\<rparr>"

text \<open>\<open>inputs / (tf.reduce_sum(inputs ** 2) ** 0.5 + 1e-12)\<close>\<close>

definition l2_normalize :: "matrix \<Rightarrow> matrix" where
  "l2_normalize inputs = mat_scale inputs (reduce_sum (squares inputs) powr (1 / 2) + 1 / 10 ^ 12)"

text \<open>\<open>tf.reshape(inputs, [-1, n])\<close> with \<open>n\<close> the last size, and the reshape back.\<close>

definition reshape_2d :: "ndarray \<Rightarrow> tf_error + matrix" where
  "reshape_2d inputs =
     (if dims inputs = [] then Inl IndexError
      else let n = last (dims inputs)
           in if n = 0 then Inl ValueError
              else Inr \<lparr>nrows = prod_list (dims inputs) div n, ncols = n,
                        entry = (\<lambda>i j. flat inputs (i * n + j))\<rparr>)"

definition reshape_back :: "matrix \<Rightarrow> nat list \<Rightarrow> ndarray" where
  "reshape_back w input_shape =
     \<lparr>dims = input_shape, flat = (\<lambda>k. entry w (k div ncols w) (k mod ncols w))\<rparr>"

definition power_iteration ::
  "matrix \<Rightarrow> int \<Rightarrow> matrix \<Rightarrow> matrix \<Rightarrow> tf_error + int \<times> matrix \<times> matrix" where
  "power_iteration w i u_i v_i =
     and_then (matmul u_i (mat_transpose w)) (\<lambda>uw.
     let v_ip1 = l2_normalize uw
     in and_then (matmul v_ip1 w) (\<lambda>vw.
        let u_ip1 = l2_normalize vw
        in Inr (i + 1, u_ip1, v_ip1)))"

text \<open>\<open>tf.while_loop\<close> with the condition \<open>i < ITERS\<close>; it ends since the body returns
  \<open>i + 1\<close>.\<close>

function while_loop ::
  "matrix \<Rightarrow> int \<Rightarrow> matrix \<Rightarrow> matrix \<Rightarrow> tf_error + int \<times> matrix \<times> matrix" where
  "while_loop w i u_i v_i =
     (if i < ITERS
      then (case power_iteration w i u_i v_i of
              Inl e \<Rightarrow> Inl e
            | Inr (i', u', v') \<Rightarrow> while_loop w i' u' v')
      else Inr (i, u_i, v_i))"
  by pat_completeness auto
termination
proof (relation "measure (\<lambda>(w, i, u_i, v_i). nat (ITERS - i))")
  show "wf (measure (\<lambda>(w, i, u_i, v_i). nat (ITERS - i)))"
    by simp
next
  fix w :: matrix and i :: int and u_i v_i :: matrix and r y i' u' v'
  assume "i < ITERS" and "power_iteration w i u_i v_i = Inr r" and "(i', y) = r" and "(u', v') = y"
  then have "i' = i + 1"
    by (auto simp add: power_iteration_def and_then_def Let_def split: sum.splits)
  with \<open>i < ITERS\<close>
  show "((w, i', u', v'), (w, i, u_i, v_i)) \<in> measure (\<lambda>(w, i, u_i, v_i). nat (ITERS - i))"
    by simp
qed

declare while_loop.simps [simp del]

text \<open>The variable \<open>u\<close> is looked up by name in the enclosing scope and outlives the call:
  it is passed in, and the result says what it holds once \<open>w_norm\<close> has been evaluated
  and which assignment was left in a collection for later.\<close>

record sn_result =
  w_norm :: "ndarray option"
  u_variable :: matrix
  collected :: "(string \<times> matrix) option"

definition spectral_norm :: "ndarray \<Rightarrow> matrix \<Rightarrow> collection_arg \<Rightarrow> tf_error + sn_result" where
  "spectral_norm inputs u update_collection =
     (let input_shape = dims inputs
      in and_then (reshape_2d inputs) (\<lambda>w.
         if nrows u \<noteq> 1 \<or> ncols u \<noteq> ncols w then Inl ValueError
         else and_then (while_loop w 0 u (zeros 1 (nrows w))) (\<lambda>(i, u_final, v_final).
              and_then (matmul v_final w) (\<lambda>vw.
              and_then (matmul vw (mat_transpose u_final)) (\<lambda>sigma.
              let w' = (if entry sigma 0 0 = 0 \<and> 0 < nrows w then None
                        else Some (reshape_back (mat_scale w (entry sigma 0 0)) input_shape))
              in case update_collection of
                   PyNone \<Rightarrow> Inr \<lparr>w_norm = w', u_variable = u_final, collected = None\<rparr>
                 | NO_OPS \<Rightarrow> Inr \<lparr>w_norm = w', u_variable = u, collected = None\<rparr>
                 | Collection c \<Rightarrow>
                     Inr \<lparr>w_norm = w', u_variable = u, collected = Some (c, u_final)\<rparr>)))))"

text \<open>The contract as the specification words it: the L2 norm, one step of the power
  iteration, and the estimate of the largest singular value.\<close>

definition l2_norm :: "matrix \<Rightarrow> real" where
  "l2_norm x = sqrt (\<Sum>i\<leftarrow>[0..<nrows x]. \<Sum>j\<leftarrow>[0..<ncols x]. (entry x i j)\<^sup>2)"

definition spec_normalize :: "matrix \<Rightarrow> matrix" where
  "spec_normalize x = mat_scale x (l2_norm x + 1 / 10 ^ 12)"

definition spec_v :: "matrix \<Rightarrow> matrix \<Rightarrow> matrix" where
  "spec_v w u = spec_normalize (mat_mul u (mat_transpose w))"

definition spec_u :: "matrix \<Rightarrow> matrix \<Rightarrow> matrix" where
  "spec_u w u = spec_normalize (mat_mul (spec_v w u) w)"

definition spec_sigma :: "matrix \<Rightarrow> matrix \<Rightarrow> real" where
  "spec_sigma w u =
     entry (mat_mul (mat_mul (spec_v w u) w) (mat_transpose (spec_u w u))) 0 0"

section \<open>Generator and discriminator pyramids at the level of shapes (Model.py)\<close>

text \<open>
  The graph-building functions read and decide on static shapes only
  (\<open>get_shape().as_list()\<close>), so an image tensor (batch, channel, height, width) is kept
  as its list of sizes, all of them known. With \<open>SAME\<close> padding a convolution or a pooling
  of stride \<open>s\<close> maps a spatial size \<open>n\<close> to the ceiling of \<open>n / s\<close> whatever the kernel;
  kernel sizes, names, biases and activations do not reach the shape and are left out,
  as are batch normalisation and the pointwise activations.

  A convolution or a dense layer first creates its weights, of initial deviation
  \<open>sqrt (2.6 / fan_in)\<close>, where \<open>fan_in\<close> is the product of all sizes of the weight but
  the last: kernel area times input channels for a convolution, kernel area times
  output channels for a transposed one, the input width for a dense layer. When that
  product is 0 the division raises before anything is built.

  The transposed branch of \<open>conv\<close> (which no call in the source takes) multiplies the
  spatial sizes of the shape list in place, so a list shorter than 4 fails on the
  index, and hands the resulting list over as the output shape, which is not checked
  against the strides.
\<close>

definition ceil_div :: "nat \<Rightarrow> nat \<Rightarrow> nat" where
  "ceil_div n s = (n + s - 1) div s"

text \<open>\<open>as_list()[-k]\<close>\<close>

definition dim_from_end :: "nat list \<Rightarrow> nat \<Rightarrow> tf_error + nat" where
  "dim_from_end s k = (if 0 < k \<and> k \<le> length s then Inr (s ! (length s - k)) else Inl IndexError)"

fun conv :: "nat list \<Rightarrow> nat \<Rightarrow> nat \<Rightarrow> nat \<Rightarrow> bool \<Rightarrow> tf_error + nat list" where
  "conv [] chans strides_h strides_w transposed = Inl IndexError"
| "conv [n] chans strides_h strides_w transposed = Inl IndexError"
| "conv [n, c, h, w] chans strides_h strides_w transposed =
     (if transposed
      then (if chans = 0 then Inl ZeroDivisionError
            else Inr [n, chans, h * strides_h, w * strides_w])
      else if c = 0 then Inl ZeroDivisionError
      else if strides_h = 0 \<or> strides_w = 0 then Inl ValueError
      else Inr [n, chans, ceil_div h strides_h, ceil_div w strides_w])"
| "conv (n # c # rest) chans strides_h strides_w transposed =
     (if transposed
      then (if chans = 0 then Inl ZeroDivisionError
            else if length rest < 2 then Inl IndexError
            else Inl ValueError)
      else if c = 0 then Inl ZeroDivisionError
      else Inl ValueError)"

fun dense :: "nat list \<Rightarrow> nat \<Rightarrow> tf_error + nat list" where
  "dense [] units = Inl IndexError"
| "dense [n] units = Inl IndexError"
| "dense [n, k] units = (if k = 0 then Inl ZeroDivisionError else Inr [n, units])"
| "dense (n # k # rest) units = (if k = 0 then Inl ZeroDivisionError else Inl ValueError)"

definition squeeze :: "nat list \<Rightarrow> nat list" where
  "squeeze s = filter (\<lambda>d. d \<noteq> 1) s"

fun broadcast_rev :: "nat list \<Rightarrow> nat list \<Rightarrow> nat list option" where
  "broadcast_rev [] ys = Some ys"
| "broadcast_rev xs [] = Some xs"
| "broadcast_rev (x # xs) (y # ys) =
     (case bdim x y of
        None \<Rightarrow> None
      | Some d \<Rightarrow> (case broadcast_rev xs ys of None \<Rightarrow> None | Some r \<Rightarrow> Some (d # r)))"

definition tf_add :: "nat list \<Rightarrow> nat list \<Rightarrow> tf_error + nat list" where
  "tf_add a b = (case broadcast_rev (rev a) (rev b) of None \<Rightarrow> Inl ValueError | Some r \<Rightarrow> Inr (rev r))"

definition tf_transpose :: "nat list \<Rightarrow> nat list \<Rightarrow> tf_error + nat list" where
  "tf_transpose s perm =
     (if length perm = length s \<and> list_all (\<lambda>i. i \<in> set perm) [0..<length s]
      then Inr (map (\<lambda>i. s ! i) perm) else Inl ValueError)"

fun resize_nearest_neighbor :: "nat list \<Rightarrow> nat list \<Rightarrow> tf_error + nat list" where
  "resize_nearest_neighbor [n, h, w, c] [new_h, new_w] = Inr [n, new_h, new_w, c]"
| "resize_nearest_neighbor images new_size = Inl ValueError"

definition tf_tile :: "nat list \<Rightarrow> nat list \<Rightarrow> tf_error + nat list" where
  "tf_tile s multiples =
     (if length multiples = length s then Inr (map (\<lambda>(d, m). d * m) (zip s multiples))
      else Inl ValueError)"

text \<open>\<open>tf.concat([a, b], axis=1)\<close>\<close>

definition tf_concat :: "nat list \<Rightarrow> nat list \<Rightarrow> tf_error + nat list" where
  "tf_concat a b =
     (if length a = length b \<and> 2 \<le> length a \<and> a[1 := 0] = b[1 := 0]
      then Inr (a[1 := a ! 1 + b ! 1]) else Inl ValueError)"

fun average_pooling2d :: "nat list \<Rightarrow> tf_error + nat list" where
  "average_pooling2d [n, c, h, w] = Inr [n, c, ceil_div h 2, ceil_div w 2]"
| "average_pooling2d inputs = Inl ValueError"

definition label_concat :: "nat list \<Rightarrow> nat list \<Rightarrow> tf_error + nat list" where
  "label_concat inputs label =
     and_then (dim_from_end inputs 2) (\<lambda>dim1.
     and_then (dim_from_end inputs 1) (\<lambda>dim2.
     and_then (tf_tile label [1, 1, dim1, dim2]) (\<lambda>label'.
     tf_concat inputs label')))"

definition upsample :: "nat list \<Rightarrow> nat \<Rightarrow> tf_error + nat list" where
  "upsample inputs chans =
     (let new_size = map (\<lambda>i. i * 2) (drop (length inputs - 2) inputs)
      in and_then (tf_transpose inputs [0, 2, 3, 1]) (\<lambda>output.
         and_then (resize_nearest_neighbor output new_size) (\<lambda>output.
         and_then (tf_transpose output [0, 3, 1, 2]) (\<lambda>skip.
         and_then (conv skip chans 1 1 False) (\<lambda>output.
         and_then (conv output chans 1 1 False) (\<lambda>output.
         and_then (conv skip chans 1 1 False) (\<lambda>skip'.
         tf_add output skip')))))))"

definition genblock :: "nat list \<Rightarrow> nat \<Rightarrow> nat list \<Rightarrow> tf_error + nat list" where
  "genblock inputs chans label =
     and_then (label_concat inputs label) (\<lambda>inputs'. upsample inputs' chans)"

definition generator1 :: "nat list \<Rightarrow> nat list \<Rightarrow> tf_error + nat list" where
  "generator1 inputs label = genblock inputs 64 label"

definition generator2 :: "nat list \<Rightarrow> nat list \<Rightarrow> tf_error + nat list" where
  "generator2 inputs label = genblock inputs 32 label"

definition generator3 :: "nat list \<Rightarrow> nat list \<Rightarrow> tf_error + nat list" where
  "generator3 inputs label = genblock inputs 16 label"

definition downblock :: "nat list \<Rightarrow> nat \<Rightarrow> tf_error + nat list" where
  "downblock inputs chans =
     and_then (average_pooling2d inputs) (\<lambda>skip.
     and_then (conv skip chans 1 1 False) (\<lambda>output.
     and_then (conv output chans 1 1 False) (\<lambda>output.
     and_then (conv skip chans 1 1 False) (\<lambda>skip'.
     tf_add output skip'))))"

text \<open>The two \<open>while\<close> loops. Nothing in their text bounds the number of rounds, so each is
  a partial function: \<open>None\<close> stands for a loop that never ends.\<close>

partial_function (option) downsample_loop ::
  "nat list \<Rightarrow> nat \<Rightarrow> nat \<Rightarrow> (tf_error + nat list) option" where
  "downsample_loop output chans i =
     (case dim_from_end output 2 of
        Inl e \<Rightarrow> Some (Inl e)
      | Inr h \<Rightarrow>
          if h > 1
          then (case downblock output (chans * 2 ^ i) of
                  Inl e \<Rightarrow> Some (Inl e)
                | Inr output' \<Rightarrow> downsample_loop output' chans (i + 1))
          else Some (Inr output))"

definition downsample :: "nat list \<Rightarrow> (tf_error + nat list) option" where
  "downsample inputs =
     (let chans = 16
      in case and_then (conv inputs chans 1 1 False) (\<lambda>output.
              and_then (conv output chans 1 1 False) (\<lambda>output.
              and_then (conv inputs chans 1 1 False) (\<lambda>skip.
              tf_add output skip))) of
           Inl e \<Rightarrow> Some (Inl e)
         | Inr output \<Rightarrow> downsample_loop output chans 1)"

partial_function (option) encoder_loop :: "nat list \<Rightarrow> nat \<Rightarrow> (tf_error + nat list) option" where
  "encoder_loop output i =
     (case dim_from_end output 1 of
        Inl e \<Rightarrow> Some (Inl e)
      | Inr w \<Rightarrow>
          if w > 1
          then (case conv output (2 ^ (i div 2 + 3)) 2 2 False of
                  Inl e \<Rightarrow> Some (Inl e)
                | Inr output' \<Rightarrow> encoder_loop output' (i + 1))
          else Some (Inr output))"

definition encoder :: "nat list \<Rightarrow> (tf_error + nat list) option" where
  "encoder inputs =
     (case encoder_loop inputs 0 of
        None \<Rightarrow> None
      | Some (Inl e) \<Rightarrow> Some (Inl e)
      | Some (Inr output) \<Rightarrow> Some (dense (squeeze output) 64))"

section \<open>Example inputs\<close>

definition unit_weights :: conv_init where
  "unit_weights = \<lparr>init_weight = (\<lambda>co ci k. 1), init_bias = (\<lambda>co. 0)\<rparr>"

definition ramp :: "nat \<Rightarrow> tensor" where
  "ramp T = \<lparr>batch = 1, channels = 1, len = T, elem = (\<lambda>b c t. real t)\<rparr>"

definition ramp_cut :: "nat \<Rightarrow> nat \<Rightarrow> tensor" where
  "ramp_cut n T = \<lparr>batch = 1, channels = 1, len = T, elem = (\<lambda>b c t. if t \<le> n then real t else 0)\<rparr>"

definition unit_block :: block_init where
  "unit_block = \<lparr>init_dilated = unit_weights, init_tanh = unit_weights, init_sigmoid = unit_weights,
                 init_residual = unit_weights, init_skip = unit_weights\<rparr>"

definition unit_net :: wavenet_init where
  "unit_net = \<lparr>init_causal = unit_weights, init_blocks = (\<lambda>i. unit_block),
               init_conv1 = unit_weights, init_conv2 = unit_weights\<rparr>"

definition identity_2x2 :: ndarray where
  "identity_2x2 = \<lparr>dims = [2, 2], flat = (\<lambda>k. if k = 0 \<or> k = 3 then 1 else 0)\<rparr>"

definition ones_row :: "nat \<Rightarrow> matrix" where
  "ones_row n = \<lparr>nrows = 1, ncols = n, entry = (\<lambda>i j. 1)\<rparr>"

section \<open>The residual stack as the specification words it\<close>

text \<open>A block as the constructor of the stack builds it: some dilation \<open>d \<ge> 1\<close> and the
  channel widths of the stack.\<close>

definition good_block :: "nat \<Rightarrow> nat \<Rightarrow> nat \<Rightarrow> ResidualBlock \<Rightarrow> bool" where
  "good_block rc dc sc blk = (\<exists>d prm. 1 \<le> d \<and> blk = ResidualBlock_init rc dc sc d prm)"

text \<open>The skip outputs of the blocks, each block fed with the residual output of the one
  before it; the residual output of the last block is dropped.\<close>

fun skip_outputs :: "ResidualBlock list \<Rightarrow> int \<Rightarrow> tensor \<Rightarrow> error + tensor list" where
  "skip_outputs [] s x = Inr []"
| "skip_outputs (blk # rest) s x =
     and_then (ResidualBlock_forward blk x s) (\<lambda>(residual, skip).
     and_then (skip_outputs rest s residual) (\<lambda>skips. Inr (skip # skips)))"

section \<open>The dilated causal convolution\<close>

lemma taps2: "[0..<2] = [0, Suc 0]"
  by (simp add: upt_rec)

lemma padded_shift: "padded d x b c (t + d) = (if t < len x then elem x b c t else 0)"
  by (simp add: padded_def)

lemma sum_list_cong_upt:
  "(\<And>i. i < n \<Longrightarrow> f i = g i) \<Longrightarrow> (\<Sum>i\<leftarrow>[0..<n]. f i) = (\<Sum>i\<leftarrow>[0..<n]. (g i :: real))"
  by (rule arg_cong [where f = sum_list]) simp

text \<open>With kernel size 2 and padding equal to the dilation, an output sample reads the
  input \<open>d\<close> steps back (zero before the start) and the input at the same step.\<close>

lemma dilated_conv_at:
  "conv_at (Conv1d_init cin cout 2 d d False prm) x b co t =
     (\<Sum>ci\<leftarrow>[0..<cin].
        init_weight prm co ci 0 * (if d \<le> t \<and> t < d + len x then elem x b ci (t - d) else 0) +
        init_weight prm co ci 1 * (if t < len x then elem x b ci t else 0))"
  by (simp add: conv_at_def Conv1d_init_def taps2 padded_shift) (simp add: padded_def)

lemma DilatedCausalConv1d_forward_eq:
  assumes "1 \<le> d" and "channels x = cin" and "1 \<le> len x"
  shows "DilatedCausalConv1d_forward (DilatedCausalConv1d_init cin cout d prm) x =
           Inr \<lparr>batch = batch x, channels = cout, len = len x,
                elem = conv_at (Conv1d_init cin cout 2 d d False prm) x\<rparr>"
  using assms
  by (simp add: DilatedCausalConv1d_forward_def DilatedCausalConv1d_init_def Conv1d_forward_def
      Conv1d_init_def drop_last_def)

text \<open>
  Claim C4. For every dilation \<open>d \<ge> 1\<close> and every input of shape \<open>(B, C_in, T)\<close> with
  \<open>T \<ge> 1\<close>, the forward pass of DilatedCausalConv1d succeeds and returns a tensor of shape
  \<open>(B, C_out, T)\<close>: padding by \<open>d\<close> on both sides and cutting \<open>d\<close> samples on the right
  keeps the temporal length.
\<close>

theorem DilatedCausalConv1d_length_preserved:
  assumes "1 \<le> d" and "batch x = B" and "channels x = cin" and "len x = T" and "1 \<le> T"
  shows "\<exists>y. DilatedCausalConv1d_forward (DilatedCausalConv1d_init cin cout d prm) x = Inr y \<and>
             batch y = B \<and> channels y = cout \<and> len y = T"
  using assms by (simp add: DilatedCausalConv1d_forward_eq)

theorem DilatedCausalConv1d_length_preserved_witness:
  "\<exists>y. DilatedCausalConv1d_forward (DilatedCausalConv1d_init 1 1 2 unit_weights) (ramp 3) = Inr y \<and>
       batch y = 1 \<and> channels y = 1 \<and> len y = 3"
  using DilatedCausalConv1d_length_preserved [of 2 "ramp 3" 1 1 3 1 unit_weights]
  by (simp add: ramp_def)

text \<open>
  Claim C3. Causality: for every dilation \<open>d \<ge> 1\<close>, every time step \<open>t\<close> and every two
  inputs of the same shape that agree at all time steps up to \<open>t\<close>, the forward pass
  with the same weights succeeds on both and the two outputs agree at time step \<open>t\<close>.
\<close>

theorem DilatedCausalConv1d_causal:
  assumes "1 \<le> d" and "same_shape x y" and "channels x = cin" and "t < len x"
    and agree: "\<forall>b<batch x. \<forall>c<channels x. \<forall>s\<le>t. elem x b c s = elem y b c s"
  shows "\<exists>ox oy.
           DilatedCausalConv1d_forward (DilatedCausalConv1d_init cin cout d prm) x = Inr ox \<and>
           DilatedCausalConv1d_forward (DilatedCausalConv1d_init cin cout d prm) y = Inr oy \<and>
           (\<forall>b<batch x. \<forall>co<cout. elem ox b co t = elem oy b co t)"
proof -
  have cy: "channels y = cin" and ly: "len y = len x"
    using assms by (simp_all add: same_shape_def)
  have "conv_at (Conv1d_init cin cout 2 d d False prm) x b co t =
        conv_at (Conv1d_init cin cout 2 d d False prm) y b co t" if "b < batch x" for b co
    unfolding dilated_conv_at ly
  proof (rule sum_list_cong_upt)
    fix ci assume "ci < cin"
    with that agree assms(3) have "\<And>s. s \<le> t \<Longrightarrow> elem x b ci s = elem y b ci s"
      by simp
    then have "elem x b ci (t - d) = elem y b ci (t - d)" and "elem x b ci t = elem y b ci t"
      by simp_all
    then show "init_weight prm co ci 0 * (if d \<le> t \<and> t < d + len x then elem x b ci (t - d) else 0) +
        init_weight prm co ci 1 * (if t < len x then elem x b ci t else 0) =
        init_weight prm co ci 0 * (if d \<le> t \<and> t < d + len x then elem y b ci (t - d) else 0) +
        init_weight prm co ci 1 * (if t < len x then elem y b ci t else 0)"
      by simp
  qed
  moreover have "1 \<le> len x" and "1 \<le> len y"
    using assms(4) ly by simp_all
  ultimately show ?thesis
    using assms(1,3) cy by (simp add: DilatedCausalConv1d_forward_eq)
qed

text \<open>The two example inputs agree up to step 1 and differ at step 2.\<close>

theorem DilatedCausalConv1d_causal_witness:
  "elem (ramp 3) 0 0 2 \<noteq> elem (ramp_cut 1 3) 0 0 2 \<and>
   (\<exists>ox oy.
      DilatedCausalConv1d_forward (DilatedCausalConv1d_init 1 1 1 unit_weights) (ramp 3) = Inr ox \<and>
      DilatedCausalConv1d_forward (DilatedCausalConv1d_init 1 1 1 unit_weights) (ramp_cut 1 3) = Inr oy \<and>
      elem ox 0 0 1 = elem oy 0 0 1)"
proof -
  have "\<exists>ox oy.
      DilatedCausalConv1d_forward (DilatedCausalConv1d_init 1 1 1 unit_weights) (ramp 3) = Inr ox \<and>
      DilatedCausalConv1d_forward (DilatedCausalConv1d_init 1 1 1 unit_weights) (ramp_cut 1 3) = Inr oy \<and>
      (\<forall>b<batch (ramp 3). \<forall>co<1. elem ox b co 1 = elem oy b co 1)"
    by (rule DilatedCausalConv1d_causal) (simp_all add: ramp_def ramp_cut_def same_shape_def)
  then show ?thesis
    by (auto simp add: ramp_def ramp_cut_def)
qed

text \<open>
  Claim C5, as amended. For an input whose temporal length \<open>T\<close> is at least 1 and at
  most the padding (the dilation \<open>d \<ge> 1\<close>), the forward pass still succeeds and returns
  a tensor of temporal length \<open>T\<close>, not an empty one. Every output sample then comes
  from the input sample of the same time step alone: the tap \<open>d\<close> steps back reads zero
  padding.
\<close>

theorem DilatedCausalConv1d_short_input:
  assumes "1 \<le> d" and "channels x = cin" and "1 \<le> len x" and "len x \<le> d"
  shows "\<exists>y. DilatedCausalConv1d_forward (DilatedCausalConv1d_init cin cout d prm) x = Inr y \<and>
             batch y = batch x \<and> channels y = cout \<and> len y = len x \<and>
             (\<forall>b co. \<forall>t<len x.
                elem y b co t = (\<Sum>ci\<leftarrow>[0..<cin]. init_weight prm co ci 1 * elem x b ci t))"
  using assms
  by (auto simp add: DilatedCausalConv1d_forward_eq dilated_conv_at intro!: sum_list_cong_upt)

theorem DilatedCausalConv1d_short_input_witness:
  "\<exists>y. DilatedCausalConv1d_forward (DilatedCausalConv1d_init 1 1 2 unit_weights) (ramp 2) = Inr y \<and>
       batch y = 1 \<and> channels y = 1 \<and> len y = 2 \<and> elem y 0 0 1 = 1"
  using DilatedCausalConv1d_short_input [of 2 "ramp 2" 1 1 unit_weights]
  by (auto simp add: ramp_def unit_weights_def)

text \<open>The claim as first stated fails: an input of length 1 under padding 1 gives an
  output of length 1, not an empty one.\<close>

theorem DilatedCausalConv1d_short_input_nonempty:
  "len (ramp 1) \<le> dc_padding (DilatedCausalConv1d_init 1 1 1 unit_weights) \<and>
   result_len (DilatedCausalConv1d_forward (DilatedCausalConv1d_init 1 1 1 unit_weights) (ramp 1)) = Some 1 \<and>
   result_len (DilatedCausalConv1d_forward (DilatedCausalConv1d_init 1 1 1 unit_weights) (ramp 1)) \<noteq> Some 0"
proof -
  have "DilatedCausalConv1d_forward (DilatedCausalConv1d_init 1 1 1 unit_weights) (ramp 1) =
          Inr \<lparr>batch = batch (ramp 1), channels = 1, len = len (ramp 1),
               elem = conv_at (Conv1d_init 1 1 2 1 1 False unit_weights) (ramp 1)\<rparr>"
    by (rule DilatedCausalConv1d_forward_eq) (simp_all add: ramp_def)
  then show ?thesis
    by (simp add: result_len_def ramp_def DilatedCausalConv1d_init_def)
qed

section \<open>Residual blocks and the unused skip size\<close>

lemma shape_of_pointwise: "shape_of (pointwise f x) = shape_of x"
  by (simp add: shape_of_def pointwise_def)

lemma pointwise_conv_forward:
  assumes "channels x = cin" and "1 \<le> len x"
  shows "\<exists>y. Conv1d_forward (Conv1d_init cin cout 1 0 1 has_bias prm) x = Inr y \<and>
             shape_of y = (batch x, cout, len x)"
  using assms by (simp add: Conv1d_forward_def Conv1d_init_def shape_of_def)

lemma dilated_forward_shape:
  assumes "1 \<le> d" and "channels x = cin" and "1 \<le> len x"
  shows "\<exists>y. DilatedCausalConv1d_forward (DilatedCausalConv1d_init cin cout d prm) x = Inr y \<and>
             shape_of y = (batch x, cout, len x)"
  using assms by (simp add: DilatedCausalConv1d_forward_eq shape_of_def)

lemma binop_same_shape:
  assumes "shape_of x = shape_of y"
  shows "\<exists>z. binop f x y = Inr z \<and> shape_of z = shape_of x \<and>
             (\<forall>b<batch x. \<forall>c<channels x. \<forall>t<len x. elem z b c t = f (elem x b c t) (elem y b c t))"
  using assms by (auto simp add: binop_def bdim_def bidx_def shape_of_def)

lemma inplace_same_shape:
  assumes "shape_of x = shape_of y"
  shows "\<exists>z. inplace f x y = Inr z \<and> shape_of z = shape_of x \<and>
             (\<forall>b<batch x. \<forall>c<channels x. \<forall>t<len x. elem z b c t = f (elem x b c t) (elem y b c t))"
proof -
  from binop_same_shape [OF assms, of f] obtain z where
    z: "binop f x y = Inr z" "shape_of z = shape_of x"
      "\<forall>b<batch x. \<forall>c<channels x. \<forall>t<len x. elem z b c t = f (elem x b c t) (elem y b c t)"
    by blast
  then have "inplace f x y = Inr z"
    by (simp add: inplace_def same_shape_def shape_of_def)
  with z show ?thesis by blast
qed

lemma shape_of_keep_last: "shape_of (keep_last (len x) x) = shape_of x"
  by (simp add: keep_last_def shape_of_def Let_def)

lemma ResidualBlock_forward_shape:
  assumes "1 \<le> d" and "channels x = rc" and "1 \<le> len x"
  shows "\<exists>out skip. ResidualBlock_forward (ResidualBlock_init rc dc sc d prm) x s = Inr (out, skip) \<and>
           shape_of out = (batch x, rc, len x) \<and> shape_of skip = (batch x, sc, len x)"
proof -
  obtain y where y: "DilatedCausalConv1d_forward (DilatedCausalConv1d_init rc rc d (init_dilated prm)) x = Inr y"
      "shape_of y = (batch x, rc, len x)"
    using dilated_forward_shape [OF assms(1,2,3)] by blast
  then have cy: "channels y = rc" and ly: "1 \<le> len y" and sy: "batch y = batch x" "len y = len x"
    using assms(3) by (simp_all add: shape_of_def)
  obtain gt where gt: "Conv1d_forward (Conv1d_init rc dc 1 0 1 True (init_tanh prm)) y = Inr gt"
      "shape_of gt = (batch y, dc, len y)"
    using pointwise_conv_forward [OF cy ly] by blast
  obtain gs where gs: "Conv1d_forward (Conv1d_init rc dc 1 0 1 True (init_sigmoid prm)) y = Inr gs"
      "shape_of gs = (batch y, dc, len y)"
    using pointwise_conv_forward [OF cy ly] by blast
  have "shape_of (pointwise tanh gt) = shape_of (pointwise sigmoid gs)"
    using gt gs by (simp add: shape_of_pointwise)
  from binop_same_shape [OF this, of "(*)"] obtain g where
    g: "binop (*) (pointwise tanh gt) (pointwise sigmoid gs) = Inr g" "shape_of g = (batch y, dc, len y)"
    using gt(2) by (auto simp add: shape_of_pointwise)
  then have cg: "channels g = dc" and lg: "1 \<le> len g" and bg: "batch g = batch x" "len g = len x"
    using ly sy by (simp_all add: shape_of_def)
  obtain res where res: "Conv1d_forward (Conv1d_init dc rc 1 0 1 True (init_residual prm)) g = Inr res"
      "shape_of res = (batch g, rc, len g)"
    using pointwise_conv_forward [OF cg lg] by blast
  then have lres: "len res = len x" by (simp add: shape_of_def bg)
  have "shape_of res = shape_of (keep_last (len res) x)"
    unfolding lres shape_of_keep_last using res(2) bg assms(2) by (simp add: shape_of_def)
  from inplace_same_shape [OF this, of "(+)"] obtain out where
    out: "inplace (+) res (keep_last (len res) x) = Inr out" "shape_of out = shape_of res"
    by blast
  obtain skip where skip: "Conv1d_forward (Conv1d_init dc sc 1 0 1 True (init_skip prm)) g = Inr skip"
      "shape_of skip = (batch g, sc, len g)"
    using pointwise_conv_forward [OF cg lg] by blast
  have "ResidualBlock_forward (ResidualBlock_init rc dc sc d prm) x s = Inr (out, skip)"
    using y(1) gt(1) gs(1) g(1) res(1) out(1) skip(1)
    by (simp add: ResidualBlock_forward_def ResidualBlock_init_def and_then_def)
  moreover have "shape_of out = (batch x, rc, len x)" "shape_of skip = (batch x, sc, len x)"
    using out(2) res(2) skip(2) bg by simp_all
  ultimately show ?thesis by blast
qed

lemma ResidualBlock_forward_fails:
  assumes "\<not> (1 \<le> d \<and> channels x = rc \<and> 1 \<le> len x)"
  shows "ResidualBlock_forward (ResidualBlock_init rc dc sc d prm) x s = Inl RuntimeError"
  using assms
  by (auto simp add: ResidualBlock_forward_def ResidualBlock_init_def and_then_def
      DilatedCausalConv1d_forward_def DilatedCausalConv1d_init_def Conv1d_forward_def Conv1d_init_def
      drop_last_def)

lemma stack_loop_skip_size: "stack_loop bs s1 x acc = stack_loop bs s2 x acc"
proof (induction bs arbitrary: x acc)
  case Nil
  show ?case by simp
next
  case (Cons b bs)
  have "ResidualBlock_forward b x s1 = ResidualBlock_forward b x s2"
    by (simp add: ResidualBlock_forward_def)
  then show ?case
    using Cons.IH by (simp add: and_then_def split: sum.splits prod.splits)
qed

text \<open>
  Claim C9. The argument \<open>skip_size\<close> has no effect: for every input and every two
  values of \<open>skip_size\<close>, a residual block returns the same pair and a residual stack the
  same sum. The skip path is never cut to \<open>skip_size\<close>: whenever a block built by the
  constructor succeeds, its skip output has the temporal length of its input.
\<close>

theorem skip_size_unused:
  "ResidualBlock_forward blk x s1 = ResidualBlock_forward blk x s2 \<and>
   ResidualStack_forward stk x s1 = ResidualStack_forward stk x s2 \<and>
   (\<forall>out skip. ResidualBlock_forward (ResidualBlock_init rc dc sc d prm) x s1 = Inr (out, skip) \<longrightarrow>
      len skip = len x)"
proof (intro conjI allI impI)
  show "ResidualBlock_forward blk x s1 = ResidualBlock_forward blk x s2"
    by (simp add: ResidualBlock_forward_def)
  show "ResidualStack_forward stk x s1 = ResidualStack_forward stk x s2"
    unfolding ResidualStack_forward_def by (rule stack_loop_skip_size)
next
  fix out skip
  assume ok: "ResidualBlock_forward (ResidualBlock_init rc dc sc d prm) x s1 = Inr (out, skip)"
  then have c: "1 \<le> d \<and> channels x = rc \<and> 1 \<le> len x"
    using ResidualBlock_forward_fails [of d x rc dc sc prm s1] by auto
  then show "len skip = len x"
    using ResidualBlock_forward_shape [of d x rc dc sc prm s1] ok by (auto simp add: shape_of_def)
qed

theorem skip_size_unused_witness:
  "ResidualBlock_forward (ResidualBlock_init 1 1 1 2 unit_block) (ramp 3) 1 =
     ResidualBlock_forward (ResidualBlock_init 1 1 1 2 unit_block) (ramp 3) 3 \<and>
   ResidualStack_forward (ResidualStack_init 2 1 1 1 1 (init_blocks unit_net)) (ramp 3) 1 =
     ResidualStack_forward (ResidualStack_init 2 1 1 1 1 (init_blocks unit_net)) (ramp 3) 3 \<and>
   (\<exists>out skip.
      ResidualBlock_forward (ResidualBlock_init 1 1 1 2 unit_block) (ramp 3) 1 = Inr (out, skip) \<and>
      len skip = 3)"
proof -
  note th = skip_size_unused [of "ResidualBlock_init 1 1 1 2 unit_block" "ramp 3" 1 3
      "ResidualStack_init 2 1 1 1 1 (init_blocks unit_net)" 1 1 1 2 unit_block]
  obtain out skip where
    ok: "ResidualBlock_forward (ResidualBlock_init 1 1 1 2 unit_block) (ramp 3) 1 = Inr (out, skip)"
    using ResidualBlock_forward_shape [of 2 "ramp 3" 1 1 1 unit_block 1] by (auto simp add: ramp_def)
  with th have "len skip = len (ramp 3)"
    by blast
  then have l: "len skip = 3"
    by (simp add: ramp_def)
  from th have "ResidualBlock_forward (ResidualBlock_init 1 1 1 2 unit_block) (ramp 3) 1 =
     ResidualBlock_forward (ResidualBlock_init 1 1 1 2 unit_block) (ramp 3) 3"
    and "ResidualStack_forward (ResidualStack_init 2 1 1 1 1 (init_blocks unit_net)) (ramp 3) 1 =
     ResidualStack_forward (ResidualStack_init 2 1 1 1 1 (init_blocks unit_net)) (ramp 3) 3"
    by blast+
  with ok l show ?thesis
    by blast
qed

section \<open>The residual stack\<close>

lemma length_concat_replicate: "length (concat (replicate S xs)) = S * length xs"
  by (induction S) simp_all

lemma nth_concat_replicate:
  "i < S * length xs \<Longrightarrow> concat (replicate S xs) ! i = xs ! (i mod length xs)"
proof (induction S arbitrary: i)
  case 0
  then show ?case by simp
next
  case (Suc S)
  show ?case
  proof (cases "i < length xs")
    case True
    then show ?thesis by (simp add: nth_append)
  next
    case False
    then have "i - length xs < S * length xs"
      using Suc.prems by simp
    from Suc.IH [OF this] False show ?thesis
      by (simp add: nth_append le_mod_geq)
  qed
qed

lemma length_build_dilations: "length (build_dilations L S) = L * S"
  by (simp add: build_dilations_def length_concat_replicate)

lemma nth_build_dilations:
  assumes "i < L * S"
  shows "build_dilations L S ! i = 2 ^ (i mod L)"
proof -
  have "0 < L" using assms by (cases L) simp_all
  then have "i mod L < L" by simp
  have "i < S * length (map (\<lambda>i. (2::nat) ^ i) [0..<L])"
    using assms by (simp add: mult.commute)
  from nth_concat_replicate [OF this] \<open>i mod L < L\<close> show ?thesis
    by (simp add: build_dilations_def)
qed

lemma length_res_blocks:
  "length (res_blocks (ResidualStack_init L S rc dc sc prm)) = L * S"
  by (simp add: ResidualStack_init_def stack_res_blocks_def length_build_dilations)

lemma nth_res_blocks:
  assumes "i < L * S"
  shows "res_blocks (ResidualStack_init L S rc dc sc prm) ! i =
           ResidualBlock_init rc dc sc (2 ^ (i mod L)) (prm i)"
  using assms
  by (simp add: ResidualStack_init_def stack_res_blocks_def length_build_dilations
      nth_enumerate_eq nth_build_dilations)

lemma good_res_blocks:
  "\<forall>blk\<in>set (res_blocks (ResidualStack_init L S rc dc sc prm)). good_block rc dc sc blk"
proof
  fix blk assume "blk \<in> set (res_blocks (ResidualStack_init L S rc dc sc prm))"
  then obtain i where "i < L * S" and "blk = res_blocks (ResidualStack_init L S rc dc sc prm) ! i"
    by (auto simp add: in_set_conv_nth length_res_blocks)
  then have "blk = ResidualBlock_init rc dc sc (2 ^ (i mod L)) (prm i)"
    by (simp add: nth_res_blocks)
  then show "good_block rc dc sc blk"
    unfolding good_block_def by (intro exI [of _ "2 ^ (i mod L)"] exI [of _ "prm i"]) simp
qed

lemma stack_loop_tensor:
  assumes "\<forall>blk\<in>set bs. good_block rc dc sc blk" and "channels x = rc" and "1 \<le> len x"
    and "shape_of a = (batch x, sc, len x)"
  shows "\<exists>skips r. skip_outputs bs s x = Inr skips \<and> length skips = length bs \<and>
           stack_loop bs s x (Tensor a) = Inr (Tensor r) \<and> shape_of r = (batch x, sc, len x) \<and>
           (\<forall>b<batch x. \<forall>c<sc. \<forall>t<len x.
              elem r b c t = elem a b c t + (\<Sum>k\<leftarrow>skips. elem k b c t))"
  using assms
proof (induction bs arbitrary: x a)
  case Nil
  then show ?case by simp
next
  case (Cons blk bs)
  from Cons.prems(1) obtain d prm where d: "1 \<le> d" and blk: "blk = ResidualBlock_init rc dc sc d prm"
    by (auto simp add: good_block_def)
  from ResidualBlock_forward_shape [OF d Cons.prems(2,3), of dc sc prm s] obtain out skip where
    fwd: "ResidualBlock_forward blk x s = Inr (out, skip)"
    and so: "shape_of out = (batch x, rc, len x)" and ss: "shape_of skip = (batch x, sc, len x)"
    unfolding blk by blast
  have "shape_of a = shape_of skip"
    using Cons.prems(4) ss by simp
  from inplace_same_shape [OF this, of "(+)"] obtain a' where
    a': "inplace (+) a skip = Inr a'" "shape_of a' = shape_of a"
      "\<forall>b<batch a. \<forall>c<channels a. \<forall>t<len a. elem a' b c t = elem a b c t + elem skip b c t"
    by blast
  have xo: "channels out = rc" "1 \<le> len out" "batch out = batch x" "len out = len x"
    using so Cons.prems(3) by (simp_all add: shape_of_def)
  have sa: "batch a = batch x" "channels a = sc" "len a = len x"
    using Cons.prems(4) by (simp_all add: shape_of_def)
  have "shape_of a' = (batch out, sc, len out)"
    using a'(2) Cons.prems(4) xo by simp
  from Cons.IH [OF _ xo(1,2) this] Cons.prems(1) obtain skips r where
    r: "skip_outputs bs s out = Inr skips" "length skips = length bs"
      "stack_loop bs s out (Tensor a') = Inr (Tensor r)" "shape_of r = (batch out, sc, len out)"
      "\<forall>b<batch out. \<forall>c<sc. \<forall>t<len out. elem r b c t = elem a' b c t + (\<Sum>k\<leftarrow>skips. elem k b c t)"
    by auto
  have 1: "skip_outputs (blk # bs) s x = Inr (skip # skips)"
    by (simp add: fwd r(1) and_then_def)
  have 2: "stack_loop (blk # bs) s x (Tensor a) = Inr (Tensor r)"
    by (simp add: fwd a'(1) r(3) and_then_def py_iadd_def)
  have 3: "elem r b c t = elem a b c t + (\<Sum>k\<leftarrow>skip # skips. elem k b c t)"
    if "b < batch x" "c < sc" "t < len x" for b c t
    using that r(5) a'(3) xo sa by simp
  show ?case
    using 1 2 3 r(2,4) xo by auto
qed

lemma ResidualStack_forward_sum:
  assumes "channels x = rc" and "1 \<le> len x" and "0 < L * S"
  shows "\<exists>skips r. skip_outputs (res_blocks (ResidualStack_init L S rc dc sc prm)) s x = Inr skips \<and>
           length skips = L * S \<and>
           ResidualStack_forward (ResidualStack_init L S rc dc sc prm) x s = Inr (Tensor r) \<and>
           shape_of r = (batch x, sc, len x) \<and>
           (\<forall>b<batch x. \<forall>c<sc. \<forall>t<len x. elem r b c t = (\<Sum>k\<leftarrow>skips. elem k b c t))"
proof -
  let ?bs = "res_blocks (ResidualStack_init L S rc dc sc prm)"
  have good: "\<forall>blk\<in>set ?bs. good_block rc dc sc blk"
    by (rule good_res_blocks)
  have "?bs \<noteq> []"
    using assms(3) length_res_blocks [of L S rc dc sc prm] by auto
  then obtain blk bs where bs: "?bs = blk # bs"
    by (cases ?bs) simp_all
  from good bs obtain d p where d: "1 \<le> d" and blk: "blk = ResidualBlock_init rc dc sc d p"
    by (auto simp add: good_block_def)
  from ResidualBlock_forward_shape [OF d assms(1,2), of dc sc p s] obtain out skip where
    fwd: "ResidualBlock_forward blk x s = Inr (out, skip)"
    and so: "shape_of out = (batch x, rc, len x)" and ss: "shape_of skip = (batch x, sc, len x)"
    unfolding blk by blast
  obtain a where a: "py_iadd (PyInt 0) skip = Inr (Tensor a)" "shape_of a = shape_of skip"
      "\<forall>b c t. elem a b c t = elem skip b c t"
    by (simp add: py_iadd_def pointwise_def shape_of_def)
  have xo: "channels out = rc" "1 \<le> len out" "batch out = batch x" "len out = len x"
    using so assms(2) by (simp_all add: shape_of_def)
  have sa: "shape_of a = (batch out, sc, len out)"
    using ss xo a(2) by simp
  have "\<forall>blk\<in>set bs. good_block rc dc sc blk"
    using good bs by simp
  from stack_loop_tensor [OF this xo(1,2) sa, of s] obtain skips r where
    r: "skip_outputs bs s out = Inr skips" "length skips = length bs"
      "stack_loop bs s out (Tensor a) = Inr (Tensor r)" "shape_of r = (batch out, sc, len out)"
      "\<forall>b<batch out. \<forall>c<sc. \<forall>t<len out. elem r b c t = elem a b c t + (\<Sum>k\<leftarrow>skips. elem k b c t)"
    by blast
  have 1: "skip_outputs ?bs s x = Inr (skip # skips)"
    unfolding bs by (simp add: fwd r(1) and_then_def)
  have 2: "ResidualStack_forward (ResidualStack_init L S rc dc sc prm) x s = Inr (Tensor r)"
    unfolding ResidualStack_forward_def bs by (simp add: fwd a(1) r(3) and_then_def)
  have 3: "elem r b c t = (\<Sum>k\<leftarrow>skip # skips. elem k b c t)"
    if "b < batch x" "c < sc" "t < len x" for b c t
    using that r(5) xo a(3) by simp
  have 4: "length (skip # skips) = L * S"
    using r(2) bs length_res_blocks [of L S rc dc sc prm] by simp
  have 5: "shape_of r = (batch x, sc, len x)"
    using r(4) xo by simp
  show ?thesis
    by (intro exI [of _ "skip # skips"] exI [of _ r] conjI allI impI 1 2 3 4 5)
qed

text \<open>
  Claim C6. For every \<open>layer_size L\<close> and \<open>stack_size S\<close> the stack holds exactly
  \<open>L * S\<close> residual blocks, block \<open>i\<close> (from 0) built with dilation \<open>2 ^ (i mod L)\<close>. On an
  input with the residual channel count and at least one sample, the forward pass of
  a stack with at least one block feeds every block with the residual output of the
  block before it and returns only the elementwise sum of the \<open>L * S\<close> skip outputs.
  A stack with no block returns the integer 0 it starts the sum with.
\<close>

theorem ResidualStack_structure:
  "length (res_blocks (ResidualStack_init L S rc dc sc prm)) = L * S \<and>
   (\<forall>i<L * S.
      res_blocks (ResidualStack_init L S rc dc sc prm) ! i =
        ResidualBlock_init rc dc sc (2 ^ (i mod L)) (prm i) \<and>
      dilation (dc_conv (dilated_conv (res_blocks (ResidualStack_init L S rc dc sc prm) ! i))) =
        2 ^ (i mod L)) \<and>
   (channels x = rc \<and> 1 \<le> len x \<and> 0 < L * S \<longrightarrow>
      (\<exists>skips r.
         skip_outputs (res_blocks (ResidualStack_init L S rc dc sc prm)) s x = Inr skips \<and>
         length skips = L * S \<and>
         ResidualStack_forward (ResidualStack_init L S rc dc sc prm) x s = Inr (Tensor r) \<and>
         shape_of r = (batch x, sc, len x) \<and>
         (\<forall>b<batch x. \<forall>c<sc. \<forall>t<len x. elem r b c t = (\<Sum>k\<leftarrow>skips. elem k b c t)))) \<and>
   (L * S = 0 \<longrightarrow>
      ResidualStack_forward (ResidualStack_init L S rc dc sc prm) x s = Inr (PyInt 0))"
proof (intro conjI allI impI)
  show "length (res_blocks (ResidualStack_init L S rc dc sc prm)) = L * S"
    by (rule length_res_blocks)
next
  assume "L * S = 0"
  then have "length (res_blocks (ResidualStack_init L S rc dc sc prm)) = 0"
    by (simp only: length_res_blocks)
  then have "res_blocks (ResidualStack_init L S rc dc sc prm) = []"
    by simp
  then show "ResidualStack_forward (ResidualStack_init L S rc dc sc prm) x s = Inr (PyInt 0)"
    by (simp add: ResidualStack_forward_def)
next
  fix i assume "i < L * S"
  then show "res_blocks (ResidualStack_init L S rc dc sc prm) ! i =
        ResidualBlock_init rc dc sc (2 ^ (i mod L)) (prm i)"
    by (rule nth_res_blocks)
  then show "dilation (dc_conv (dilated_conv (res_blocks (ResidualStack_init L S rc dc sc prm) ! i))) =
        2 ^ (i mod L)"
    by (simp add: ResidualBlock_init_def DilatedCausalConv1d_init_def Conv1d_init_def)
next
  assume "channels x = rc \<and> 1 \<le> len x \<and> 0 < L * S"
  then have "channels x = rc" and "1 \<le> len x" and "0 < L * S"
    by simp_all
  from ResidualStack_forward_sum [OF this] show "\<exists>skips r.
         skip_outputs (res_blocks (ResidualStack_init L S rc dc sc prm)) s x = Inr skips \<and>
         length skips = L * S \<and>
         ResidualStack_forward (ResidualStack_init L S rc dc sc prm) x s = Inr (Tensor r) \<and>
         shape_of r = (batch x, sc, len x) \<and>
         (\<forall>b<batch x. \<forall>c<sc. \<forall>t<len x. elem r b c t = (\<Sum>k\<leftarrow>skips. elem k b c t))"
    .
qed

theorem ResidualStack_structure_witness:
  "length (res_blocks (ResidualStack_init 2 2 1 1 1 (init_blocks unit_net))) = 4 \<and>
   res_blocks (ResidualStack_init 2 2 1 1 1 (init_blocks unit_net)) ! 3 =
     ResidualBlock_init 1 1 1 2 unit_block \<and>
   (\<exists>skips r.
      skip_outputs (res_blocks (ResidualStack_init 2 2 1 1 1 (init_blocks unit_net))) 0 (ramp 3) = Inr skips \<and>
      length skips = 4 \<and>
      ResidualStack_forward (ResidualStack_init 2 2 1 1 1 (init_blocks unit_net)) (ramp 3) 0 = Inr (Tensor r) \<and>
      shape_of r = (1, 1, 3) \<and>
      elem r 0 0 2 = (\<Sum>k\<leftarrow>skips. elem k 0 0 2))"
proof -
  note th = ResidualStack_structure [of 2 2 1 1 1 "init_blocks unit_net" "ramp 3" 0]
  have pre: "channels (ramp 3) = 1 \<and> 1 \<le> len (ramp 3) \<and> 0 < (2::nat) * 2"
    by (simp add: ramp_def)
  from th have "length (res_blocks (ResidualStack_init 2 2 1 1 1 (init_blocks unit_net))) = 4"
    by simp
  moreover from th have "res_blocks (ResidualStack_init 2 2 1 1 1 (init_blocks unit_net)) ! 3 =
     ResidualBlock_init 1 1 1 (2 ^ (3 mod 2)) (init_blocks unit_net 3)"
    by simp
  then have "res_blocks (ResidualStack_init 2 2 1 1 1 (init_blocks unit_net)) ! 3 =
     ResidualBlock_init 1 1 1 2 unit_block"
    by (simp add: unit_net_def)
  moreover from th pre obtain skips r where
    "skip_outputs (res_blocks (ResidualStack_init 2 2 1 1 1 (init_blocks unit_net))) 0 (ramp 3) = Inr skips"
    "length skips = 2 * 2"
    "ResidualStack_forward (ResidualStack_init 2 2 1 1 1 (init_blocks unit_net)) (ramp 3) 0 = Inr (Tensor r)"
    "shape_of r = (batch (ramp 3), 1, len (ramp 3))"
    "\<forall>b<batch (ramp 3). \<forall>c<1. \<forall>t<len (ramp 3). elem r b c t = (\<Sum>k\<leftarrow>skips. elem k b c t)"
    by blast
  then have "\<exists>skips r.
      skip_outputs (res_blocks (ResidualStack_init 2 2 1 1 1 (init_blocks unit_net))) 0 (ramp 3) = Inr skips \<and>
      length skips = 4 \<and>
      ResidualStack_forward (ResidualStack_init 2 2 1 1 1 (init_blocks unit_net)) (ramp 3) 0 = Inr (Tensor r) \<and>
      shape_of r = (1, 1, 3) \<and>
      elem r 0 0 2 = (\<Sum>k\<leftarrow>skips. elem k 0 0 2)"
    by (intro exI [of _ skips] exI [of _ r]) (simp add: ramp_def)
  ultimately show ?thesis
    by blast
qed

section \<open>Receptive field and output length of Wavenet\<close>

lemma PostProcess_forward_shape:
  assumes "channels r = sc" and "1 \<le> len r"
  shows "\<exists>y. PostProcess_forward (PostProcess_init sc ec ch p1 p2) (Tensor r) = Inr y \<and>
             shape_of y = (batch r, ch, len r)"
proof -
  have "channels (pointwise relu r) = sc" "1 \<le> len (pointwise relu r)"
    using assms by (simp_all add: pointwise_def)
  from pointwise_conv_forward [OF this, of ec True p1] obtain o1 where
    o1: "Conv1d_forward (Conv1d_init sc ec 1 0 1 True p1) (pointwise relu r) = Inr o1"
      "shape_of o1 = (batch r, ec, len r)"
    by (auto simp add: pointwise_def)
  then have "channels (pointwise relu o1) = ec" "1 \<le> len (pointwise relu o1)"
    using assms(2) by (simp_all add: pointwise_def shape_of_def)
  from pointwise_conv_forward [OF this, of ch True p2] obtain o2 where
    o2: "Conv1d_forward (Conv1d_init ec ch 1 0 1 True p2) (pointwise relu o1) = Inr o2"
      "shape_of o2 = (batch r, ch, len r)"
    using o1(2) by (auto simp add: pointwise_def shape_of_def)
  have "PostProcess_forward (PostProcess_init sc ec ch p1 p2) (Tensor r) = Inr (pointwise sigmoid o2)"
    using o1(1) o2(1) by (simp add: PostProcess_forward_def PostProcess_init_def and_then_def)
  then show ?thesis
    using o2(2) by (simp add: shape_of_pointwise)
qed

lemma Wavenet_forward_shape:
  assumes "channels x = ch" and "1 \<le> len x" and "0 < L * S"
  shows "\<exists>y. Wavenet_forward (Wavenet_init wide L S ch rc dc sc ec prm) x = Inr y \<and>
             shape_of y = (batch x, ch, len x)"
proof -
  obtain o1 where o1: "DilatedCausalConv1d_forward (DilatedCausalConv1d_init ch rc 1 (init_causal prm)) x = Inr o1"
      "shape_of o1 = (batch x, rc, len x)"
    using dilated_forward_shape [of 1 x ch rc "init_causal prm"] assms(1,2) by auto
  then have c1: "channels o1 = rc" "1 \<le> len o1" and s1: "batch o1 = batch x" "len o1 = len x"
    using assms(2) by (simp_all add: shape_of_def)
  from ResidualStack_forward_sum [OF c1 assms(3), of dc sc "init_blocks prm"
      "calc_output_size (Wavenet_init wide L S ch rc dc sc ec prm) x"]
  obtain r where r: "ResidualStack_forward (ResidualStack_init L S rc dc sc (init_blocks prm)) o1
        (calc_output_size (Wavenet_init wide L S ch rc dc sc ec prm) x) = Inr (Tensor r)"
      "shape_of r = (batch o1, sc, len o1)"
    by blast
  then have "channels r = sc" "1 \<le> len r"
    using c1 by (simp_all add: shape_of_def)
  from PostProcess_forward_shape [OF this, of ec ch "init_conv1 prm" "init_conv2 prm"] obtain y where
    y: "PostProcess_forward (PostProcess_init sc ec ch (init_conv1 prm) (init_conv2 prm)) (Tensor r) = Inr y"
      "shape_of y = (batch r, ch, len r)"
    by blast
  have "Wavenet_forward (Wavenet_init wide L S ch rc dc sc ec prm) x = Inr y"
    unfolding Wavenet_forward_def Let_def
    using o1(1) r(1) y(1) by (simp add: Wavenet_init_def and_then_def calc_output_size_def)
  then show ?thesis
    using y(2) r(2) s1 by (simp add: shape_of_def)
qed

lemma sum_list_powers: "(\<Sum>i\<leftarrow>[0..<L]. (2::int) ^ i) = 2 ^ L - 1"
  by (induction L) simp_all

lemma sum_list_concat_replicate: "sum_list (concat (replicate S xs)) = int S * sum_list xs"
  by (induction S) (simp_all add: algebra_simps)

lemma layers_fit_int64:
  assumes "L \<le> 63"
  shows "list_all fits_int64 (concat (replicate S (map (\<lambda>i. 2 ^ i) [0..<L])))"
proof -
  have "fits_int64 (2 ^ i)" if "i < L" for i
  proof -
    have "(2::int) ^ i < 2 ^ 63"
      using that assms by (intro power_strict_increasing) simp_all
    moreover have "- (2 ^ 63) \<le> (0::int)" "(0::int) \<le> 2 ^ i"
      by simp_all
    ultimately show ?thesis
      unfolding fits_int64_def by linarith
  qed
  then show ?thesis
    by (auto simp add: list_all_iff)
qed

lemma calc_receptive_field_wrap:
  assumes "L \<le> 63"
  shows "calc_receptive_field wide L S = int64_wrap (int S * (2 ^ L - 1))"
  using layers_fit_int64 [OF assms, of S]
  by (simp add: calc_receptive_field_def np_sum_def sum_list_concat_replicate sum_list_powers)

lemma int64_wrap_id:
  assumes "0 \<le> v" and "v < 2 ^ 63"
  shows "int64_wrap v = v"
proof -
  have "(v + 2 ^ 63) mod 2 ^ 64 = v + 2 ^ 63"
    using assms by (intro mod_pos_pos_trivial) simp_all
  then show ?thesis
    by (simp add: int64_wrap_def)
qed

text \<open>
  Claim C2, as amended. For every pair of positive integers \<open>L\<close> and \<open>S\<close> with
  \<open>S * (2 ^ L - 1) < 2 ^ 63\<close>, \<open>calc_receptive_field L S\<close> equals \<open>S * (2 ^ L - 1)\<close>, the sum
  of the dilations \<open>2 ^ 0, ..., 2 ^ (L - 1)\<close> repeated \<open>S\<close> times. Being a function of
  \<open>L\<close> and \<open>S\<close> alone, it gives the same value for the same configuration.
\<close>

theorem calc_receptive_field_closed_form:
  assumes "0 < L" and "0 < S" and "int S * (2 ^ L - 1) < 2 ^ 63"
  shows "calc_receptive_field wide L S = int S * (2 ^ L - 1) \<and>
         calc_receptive_field wide L S = int S * (\<Sum>i\<leftarrow>[0..<L]. 2 ^ i)"
proof -
  have "1 * ((2::int) ^ L - 1) \<le> int S * (2 ^ L - 1)"
    using assms(2) by (intro mult_right_mono) simp_all
  then have "(2::int) ^ L - 1 \<le> int S * (2 ^ L - 1)"
    by simp
  with assms(3) have "(2::int) ^ L < 2 ^ 63 + 1"
    by linarith
  then have "(2::int) ^ L \<le> 2 ^ 63"
    by simp
  then have "L \<le> 63"
    by (rule power_le_imp_le_exp [rotated]) simp
  moreover have "0 \<le> int S * (2 ^ L - 1)"
    by simp
  ultimately show ?thesis
    using assms(3) by (simp add: calc_receptive_field_wrap int64_wrap_id sum_list_powers)
qed

theorem calc_receptive_field_closed_form_witness:
  "calc_receptive_field sum_list 3 1 = 7 \<and> calc_receptive_field sum_list 3 1 = 1 + 2 + 4"
  using calc_receptive_field_closed_form [of 3 1 sum_list] by simp

text \<open>
  Without the bound the claim fails: the sum is taken in 64-bit integers, and for
  \<open>L = 63\<close>, \<open>S = 2\<close> it wraps around to \<open>-2\<close>.
\<close>

theorem calc_receptive_field_overflow:
  "calc_receptive_field sum_list 63 2 = - 2 \<and> (- 2 :: int) \<noteq> 2 * (2 ^ 63 - 1)"
  by (simp add: calc_receptive_field_wrap int64_wrap_def)

text \<open>
  Claim C1, as amended. For every configuration with \<open>layer_size \<ge> 1\<close> and
  \<open>stack_size \<ge> 1\<close> and every input of shape \<open>(B, channels, T)\<close> with \<open>T \<ge> 1\<close> (so also
  for every \<open>T\<close> above the receptive field), the forward pass of Wavenet succeeds and
  returns a tensor of shape \<open>(B, channels, T)\<close>: the temporal length of the output is
  that of the input.
\<close>

theorem Wavenet_forward_length:
  assumes "0 < L" and "0 < S" and "batch x = B" and "channels x = ch" and "len x = T" and "1 \<le> T"
  shows "\<exists>y. Wavenet_forward (Wavenet_init wide L S ch rc dc sc ec prm) x = Inr y \<and>
             batch y = B \<and> channels y = ch \<and> len y = T"
  using Wavenet_forward_shape [of x ch L S wide rc dc sc ec prm] assms
  by (auto simp add: shape_of_def)

theorem Wavenet_forward_length_witness:
  "\<exists>y. Wavenet_forward (Wavenet_init sum_list 3 1 1 1 1 1 1 unit_net) (ramp 100) = Inr y \<and>
       batch y = 1 \<and> channels y = 1 \<and> len y = 100"
  using Wavenet_forward_length [of 3 1 "ramp 100" 1 1 100 sum_list 1 1 1 1 unit_net]
  by (simp add: ramp_def)

text \<open>
  The claim as first stated fails on the specification's own example: with
  \<open>layer_size = 3\<close> and \<open>stack_size = 1\<close> the receptive field is 7, and an input of length
  100 gives an output of length 100, not 93.
\<close>

theorem Wavenet_forward_keeps_receptive_field:
  "receptive_field (Wavenet_init sum_list 3 1 1 1 1 1 1 unit_net) = 7 \<and>
   receptive_field (Wavenet_init sum_list 3 1 1 1 1 1 1 unit_net) < int (len (ramp 100)) \<and>
   result_len (Wavenet_forward (Wavenet_init sum_list 3 1 1 1 1 1 1 unit_net) (ramp 100)) = Some 100 \<and>
   int 100 \<noteq> int (len (ramp 100)) - receptive_field (Wavenet_init sum_list 3 1 1 1 1 1 1 unit_net)"
proof -
  have rf: "receptive_field (Wavenet_init sum_list 3 1 1 1 1 1 1 unit_net) = 7"
    by (simp add: Wavenet_init_def calc_receptive_field_wrap int64_wrap_def)
  obtain y where "Wavenet_forward (Wavenet_init sum_list 3 1 1 1 1 1 1 unit_net) (ramp 100) = Inr y"
    and "shape_of y = (batch (ramp 100), 1, len (ramp 100))"
    using Wavenet_forward_shape [of "ramp 100" 1 3 1 sum_list 1 1 1 1 unit_net]
    by (auto simp add: ramp_def)
  then have "result_len (Wavenet_forward (Wavenet_init sum_list 3 1 1 1 1 1 1 unit_net) (ramp 100)) = Some 100"
    by (simp add: result_len_def shape_of_def ramp_def)
  with rf show ?thesis
    by (simp add: ramp_def)
qed

section \<open>One step of the power iteration\<close>

lemma sum_list_nonneg_upt: "(\<And>i. 0 \<le> f i) \<Longrightarrow> 0 \<le> (\<Sum>i\<leftarrow>[0..<n]. (f i :: real))"
  by (rule sum_list_nonneg) auto

lemma reduce_sum_squares: "reduce_sum (squares x) = (\<Sum>i\<leftarrow>[0..<nrows x]. \<Sum>j\<leftarrow>[0..<ncols x]. (entry x i j)\<^sup>2)"
  by (simp add: reduce_sum_def squares_def)

lemma reduce_sum_squares_nonneg: "0 \<le> reduce_sum (squares x)"
  unfolding reduce_sum_squares by (intro sum_list_nonneg_upt) simp

lemma l2_norm_powr: "reduce_sum (squares x) powr (1 / 2) = l2_norm x"
  using reduce_sum_squares_nonneg [of x]
  by (simp add: powr_half_sqrt l2_norm_def reduce_sum_squares)

lemma l2_normalize_normalize: "l2_normalize x = spec_normalize x"
  by (simp add: l2_normalize_def spec_normalize_def l2_norm_powr)

lemma l2_norm_nonneg: "0 \<le> l2_norm x"
  by (simp add: l2_norm_def sum_list_nonneg_upt)

lemma normalize_denominator_pos: "0 < l2_norm x + 1 / 10 ^ 12"
  using l2_norm_nonneg [of x] by (simp add: add_nonneg_pos)

lemma dims_normalize: "nrows (spec_normalize x) = nrows x" "ncols (spec_normalize x) = ncols x"
  by (simp_all add: spec_normalize_def mat_scale_def)

lemma power_iteration_step:
  assumes "ncols u = ncols w"
  shows "power_iteration w i u v = Inr (i + 1, spec_u w u, spec_v w u)"
  using assms
  by (simp add: power_iteration_def matmul_def mat_transpose_def and_then_def Let_def
      l2_normalize_normalize spec_u_def spec_v_def dims_normalize mat_mul_def)

lemma while_loop_once:
  assumes "ncols u = ncols w"
  shows "while_loop w 0 u v = Inr (1, spec_u w u, spec_v w u)"
proof -
  have "while_loop w 0 u v = while_loop w 1 (spec_u w u) (spec_v w u)"
    by (subst while_loop.simps) (simp add: ITERS_def power_iteration_step [OF assms])
  also have "\<dots> = Inr (1, spec_u w u, spec_v w u)"
    by (subst while_loop.simps) (simp add: ITERS_def)
  finally show ?thesis .
qed

lemma reshape_2d_ok:
  assumes "dims inputs \<noteq> []" and "0 < last (dims inputs)"
  shows "reshape_2d inputs =
           Inr \<lparr>nrows = prod_list (butlast (dims inputs)), ncols = last (dims inputs),
                entry = (\<lambda>i j. flat inputs (i * last (dims inputs) + j))\<rparr>"
proof -
  have "prod_list (dims inputs) = prod_list (butlast (dims inputs) @ [last (dims inputs)])"
    using assms(1) by simp
  also have "\<dots> = prod_list (butlast (dims inputs)) * last (dims inputs)"
    by simp
  finally have "prod_list (dims inputs) div last (dims inputs) = prod_list (butlast (dims inputs))"
    using assms(2) by simp
  then show ?thesis
    using assms by (simp add: reshape_2d_def Let_def)
qed

lemma flat_reshape_back:
  assumes "0 < ncols w" and "\<And>i j. entry w i j = f (i * ncols w + j)"
  shows "flat (reshape_back (mat_scale w d) shp) k = f k / d"
  using assms(2) [of "k div ncols w" "k mod ncols w"]
  by (simp add: reshape_back_def mat_scale_def)

lemma spectral_norm_eq:
  assumes w: "reshape_2d inputs = Inr w" and u: "nrows u = 1" "ncols u = ncols w"
  shows "spectral_norm inputs u update_collection =
           Inr \<lparr>w_norm = (if spec_sigma w u = 0 \<and> 0 < nrows w then None
                          else Some (reshape_back (mat_scale w (spec_sigma w u)) (dims inputs))),
                u_variable = (case update_collection of PyNone \<Rightarrow> spec_u w u | _ \<Rightarrow> u),
                collected = (case update_collection of Collection c \<Rightarrow> Some (c, spec_u w u)
                             | _ \<Rightarrow> None)\<rparr>"
proof -
  have 0: "while_loop w 0 u (zeros 1 (nrows w)) = Inr (1, spec_u w u, spec_v w u)"
    using u(2) by (rule while_loop_once)
  have 1: "matmul (spec_v w u) w = Inr (mat_mul (spec_v w u) w)"
    by (simp add: matmul_def spec_v_def dims_normalize mat_mul_def mat_transpose_def)
  have 2: "matmul (mat_mul (spec_v w u) w) (mat_transpose (spec_u w u)) =
             Inr (mat_mul (mat_mul (spec_v w u) w) (mat_transpose (spec_u w u)))"
    by (simp add: matmul_def spec_u_def dims_normalize mat_mul_def mat_transpose_def)
  show ?thesis
    using u 0
    by (simp add: spectral_norm_def w and_then_def 1 2 spec_sigma_def Let_def
        split: collection_arg.splits)
qed

lemma ncols_mat_mul: "ncols (mat_mul a b) = ncols b"
  by (simp add: mat_mul_def)

lemma spec_sigma_eq:
  "spec_sigma w u =
     (\<Sum>k\<leftarrow>[0..<ncols w]. (entry (mat_mul (spec_v w u) w) 0 k)\<^sup>2) /
       (l2_norm (mat_mul (spec_v w u) w) + 1 / 10 ^ 12)"
proof -
  let ?a = "mat_mul (spec_v w u) w"
  let ?D = "l2_norm ?a + 1 / 10 ^ 12"
  have "spec_sigma w u = (\<Sum>k\<leftarrow>[0..<ncols w]. entry ?a 0 k * (entry ?a 0 k / ?D))"
    by (simp add: spec_sigma_def spec_u_def spec_normalize_def mat_scale_def mat_transpose_def
        mat_mul_def [of ?a] ncols_mat_mul)
  also have "\<dots> = (\<Sum>k\<leftarrow>[0..<ncols w]. (entry ?a 0 k)\<^sup>2 * (1 / ?D))"
    by (simp add: power2_eq_square)
  also have "\<dots> = (\<Sum>k\<leftarrow>[0..<ncols w]. (entry ?a 0 k)\<^sup>2) * (1 / ?D)"
    by (rule sum_list_mult_const)
  finally show ?thesis by simp
qed

lemma spec_sigma_nonzero:
  assumes "k < ncols w" and "entry (mat_mul (spec_v w u) w) 0 k \<noteq> 0"
  shows "spec_sigma w u \<noteq> 0"
proof -
  let ?a = "mat_mul (spec_v w u) w"
  have "(\<Sum>k\<leftarrow>[0..<ncols w]. (entry ?a 0 k)\<^sup>2) \<noteq> 0"
  proof
    assume "(\<Sum>k\<leftarrow>[0..<ncols w]. (entry ?a 0 k)\<^sup>2) = 0"
    then have "\<forall>x\<in>set (map (\<lambda>k. (entry ?a 0 k)\<^sup>2) [0..<ncols w]). x = 0"
      by (subst (asm) sum_list_nonneg_eq_0_iff) auto
    with assms(1) have "(entry ?a 0 k)\<^sup>2 = 0" by simp
    with assms(2) show False by simp
  qed
  moreover have "l2_norm ?a + 1 / 10 ^ 12 \<noteq> 0"
    using normalize_denominator_pos [of ?a] by simp
  ultimately show ?thesis
    unfolding spec_sigma_eq by simp
qed

lemma identity_product_entry:
  "entry (mat_mul (spec_v \<lparr>nrows = 2, ncols = 2, entry = (\<lambda>i j. flat identity_2x2 (i * 2 + j))\<rparr> (ones_row 2))
      \<lparr>nrows = 2, ncols = 2, entry = (\<lambda>i j. flat identity_2x2 (i * 2 + j))\<rparr>) 0 0 \<noteq> 0"
  using normalize_denominator_pos [of "mat_mul (ones_row 2)
      (mat_transpose \<lparr>nrows = 2, ncols = 2, entry = (\<lambda>i j. flat identity_2x2 (i * 2 + j))\<rparr>)"]
  by (simp add: spec_v_def spec_normalize_def mat_scale_def mat_mul_def mat_transpose_def
      ones_row_def identity_2x2_def taps2)

text \<open>
  Claim C7. For every weight tensor, reshaped to a matrix \<open>W\<close> by flattening all but
  its last axis, and every persisted row vector \<open>u\<close>, spectral_norm performs exactly one
  step of the power iteration, \<open>v = normalize (u W\<^sup>T)\<close> and \<open>u' = normalize (v W)\<close>, and
  divides \<open>W\<close> by \<open>sigma = v W u'\<^sup>T\<close> wherever \<open>sigma\<close> is not zero, where
  \<open>normalize x = x / (L2 norm of x + 1e-12)\<close>. The denominator of the normalisation is
  positive, so the normalisation never divides by zero. The vector \<open>u'\<close> replaces \<open>u\<close>
  when no update collection is given, is left in the named collection for a later
  assignment when one is, and is dropped for \<open>NO_OPS\<close>.
\<close>

theorem spectral_norm_one_step:
  assumes "dims inputs \<noteq> []" and "0 < last (dims inputs)"
    and "nrows u = 1" and "ncols u = last (dims inputs)"
  shows "\<exists>w r. reshape_2d inputs = Inr w \<and>
           nrows w = prod_list (butlast (dims inputs)) \<and> ncols w = last (dims inputs) \<and>
           (\<forall>i j. entry w i j = flat inputs (i * last (dims inputs) + j)) \<and>
           spectral_norm inputs u update_collection = Inr r \<and>
           (spec_sigma w u \<noteq> 0 \<longrightarrow>
              (\<exists>scaled. w_norm r = Some scaled \<and> dims scaled = dims inputs \<and>
                 (\<forall>k. flat scaled k = flat inputs k / spec_sigma w u))) \<and>
           (update_collection = PyNone \<longrightarrow> u_variable r = spec_u w u \<and> collected r = None) \<and>
           (update_collection = NO_OPS \<longrightarrow> u_variable r = u \<and> collected r = None) \<and>
           (\<forall>c. update_collection = Collection c \<longrightarrow>
              u_variable r = u \<and> collected r = Some (c, spec_u w u)) \<and>
           l2_normalize (mat_mul u (mat_transpose w)) =
             spec_normalize (mat_mul u (mat_transpose w)) \<and>
           l2_normalize (mat_mul (spec_v w u) w) = spec_normalize (mat_mul (spec_v w u) w) \<and>
           0 < l2_norm (mat_mul u (mat_transpose w)) + 1 / 10 ^ 12 \<and>
           0 < l2_norm (mat_mul (spec_v w u) w) + 1 / 10 ^ 12"
proof -
  let ?n = "last (dims inputs)"
  let ?w = "\<lparr>nrows = prod_list (butlast (dims inputs)), ncols = ?n,
             entry = (\<lambda>i j. flat inputs (i * ?n + j))\<rparr>"
  let ?r = "\<lparr>w_norm = (if spec_sigma ?w u = 0 \<and> 0 < nrows ?w then None
                          else Some (reshape_back (mat_scale ?w (spec_sigma ?w u)) (dims inputs))),
             u_variable = (case update_collection of PyNone \<Rightarrow> spec_u ?w u | _ \<Rightarrow> u),
             collected = (case update_collection of Collection c \<Rightarrow> Some (c, spec_u ?w u)
                          | _ \<Rightarrow> None)\<rparr>"
  have w: "reshape_2d inputs = Inr ?w"
    using assms(1,2) by (rule reshape_2d_ok)
  have u: "nrows u = 1" "ncols u = ncols ?w"
    using assms(3,4) by simp_all
  have sn: "spectral_norm inputs u update_collection = Inr ?r"
    by (rule spectral_norm_eq [OF w u])
  have fl: "flat (reshape_back (mat_scale ?w (spec_sigma ?w u)) (dims inputs)) k =
              flat inputs k / spec_sigma ?w u" for k
    by (rule flat_reshape_back) (use assms(2) in simp_all)
  have sc: "\<exists>scaled. w_norm ?r = Some scaled \<and> dims scaled = dims inputs \<and>
              (\<forall>k. flat scaled k = flat inputs k / spec_sigma ?w u)"
    if "spec_sigma ?w u \<noteq> 0"
    using that fl by (simp add: reshape_back_def)
  show ?thesis
    apply (intro exI [of _ ?w] exI [of _ ?r] conjI allI impI)
    subgoal by (rule w)
    subgoal by simp
    subgoal by simp
    subgoal by simp
    subgoal by (rule sn)
    subgoal by (rule sc)
    subgoal by simp
    subgoal by simp
    subgoal by simp
    subgoal by simp
    subgoal by simp
    subgoal by simp
    subgoal by (rule l2_normalize_normalize)
    subgoal by (rule l2_normalize_normalize)
    subgoal by (rule normalize_denominator_pos)
    subgoal by (rule normalize_denominator_pos)
    done
qed

theorem spectral_norm_one_step_witness:
  "\<exists>w r. reshape_2d identity_2x2 = Inr w \<and> nrows w = 2 \<and> ncols w = 2 \<and>
     spec_sigma w (ones_row 2) \<noteq> 0 \<and>
     spectral_norm identity_2x2 (ones_row 2) PyNone = Inr r \<and>
     (\<exists>scaled. w_norm r = Some scaled \<and> dims scaled = [2, 2] \<and>
        flat scaled 3 = 1 / spec_sigma w (ones_row 2)) \<and>
     u_variable r = spec_u w (ones_row 2) \<and>
     0 < l2_norm (mat_mul (ones_row 2) (mat_transpose w)) + 1 / 10 ^ 12"
proof -
  have "dims identity_2x2 \<noteq> []" and "0 < last (dims identity_2x2)"
    and "nrows (ones_row 2) = 1" and "ncols (ones_row 2) = last (dims identity_2x2)"
    by (simp_all add: identity_2x2_def ones_row_def)
  from spectral_norm_one_step [OF this, of PyNone] obtain w r where
    w: "reshape_2d identity_2x2 = Inr w"
      "nrows w = prod_list (butlast (dims identity_2x2))" "ncols w = last (dims identity_2x2)"
      "\<forall>i j. entry w i j = flat identity_2x2 (i * last (dims identity_2x2) + j)"
    and r: "spectral_norm identity_2x2 (ones_row 2) PyNone = Inr r"
      "spec_sigma w (ones_row 2) \<noteq> 0 \<longrightarrow>
         (\<exists>scaled. w_norm r = Some scaled \<and> dims scaled = dims identity_2x2 \<and>
            (\<forall>k. flat scaled k = flat identity_2x2 k / spec_sigma w (ones_row 2)))"
      "u_variable r = spec_u w (ones_row 2)"
      "0 < l2_norm (mat_mul (ones_row 2) (mat_transpose w)) + 1 / 10 ^ 12"
    by blast
  have dims: "nrows w = 2" "ncols w = 2"
    using w(2,3) by (simp_all add: identity_2x2_def)
  have "w = \<lparr>nrows = 2, ncols = 2, entry = (\<lambda>i j. flat identity_2x2 (i * 2 + j))\<rparr>"
    using dims w(4) by (cases w) (simp add: fun_eq_iff identity_2x2_def)
  then have sigma: "spec_sigma w (ones_row 2) \<noteq> 0"
    using spec_sigma_nonzero [of 0 w "ones_row 2"] identity_product_entry by simp
  with r(2) obtain scaled where
    "w_norm r = Some scaled" "dims scaled = dims identity_2x2"
    "\<forall>k. flat scaled k = flat identity_2x2 k / spec_sigma w (ones_row 2)"
    by blast
  then have "\<exists>scaled. w_norm r = Some scaled \<and> dims scaled = [2, 2] \<and>
        flat scaled 3 = 1 / spec_sigma w (ones_row 2)"
    by (simp add: identity_2x2_def)
  with w(1) dims sigma r(1,3,4) show ?thesis
    by blast
qed

section \<open>Shapes in the generator pyramid and the end of the downsampling loops\<close>

lemma upt4: "[0..<4] = [0, 1, 2, 3]"
  by (simp add: upt_rec)

lemma broadcast_rev_same: "broadcast_rev xs xs = Some xs"
  by (induction xs) (simp_all add: bdim_def)

lemma tf_add_same: "tf_add a a = Inr a"
  by (simp add: tf_add_def broadcast_rev_same)

lemma ceil_div_one: "ceil_div n (Suc 0) = n"
  by (simp add: ceil_div_def)

lemma conv_stride1:
  "0 < c \<Longrightarrow> conv [n, c, h, w] chans (Suc 0) (Suc 0) False = Inr [n, chans, h, w]"
  by (simp add: ceil_div_one)

lemma conv_stride2:
  "0 < c \<Longrightarrow> conv [n, c, h, w] chans 2 2 False = Inr [n, chans, ceil_div h 2, ceil_div w 2]"
  by simp

lemma label_concat_shape:
  "label_concat [n, c, h, w] [n, lc, 1, 1] = Inr [n, c + lc, h, w]"
  by (simp add: label_concat_def dim_from_end_def tf_tile_def tf_concat_def and_then_def)

lemma upsample_shape:
  assumes "0 < c" and "0 < chans"
  shows "upsample [n, c, h, w] chans = Inr [n, chans, h * 2, w * 2]"
  using assms
  by (simp add: upsample_def tf_transpose_def upt4 and_then_def ceil_div_one tf_add_same Let_def)

lemma genblock_shape:
  assumes "0 < c + lc" and "0 < chans"
  shows "genblock [n, c, h, w] chans [n, lc, 1, 1] = Inr [n, chans, h * 2, w * 2]"
  unfolding genblock_def label_concat_shape and_then_def
  using assms by (simp add: upsample_shape)

text \<open>
  Claim C8. For every base feature map of spatial size \<open>(h, w)\<close> and a label of spatial
  size \<open>(1, 1)\<close> with the same batch size, the two having at least one channel between
  them, generator1, generator2 and generator3 applied in sequence succeed and give
  spatial sizes \<open>(2h, 2w)\<close>, \<open>(4h, 4w)\<close> and \<open>(8h, 8w)\<close>, with 64, 32 and 16 channels: the
  resize of each block doubles both sizes and the convolutions after it have stride 1
  and \<open>SAME\<close> padding.
\<close>

theorem generator_pyramid:
  assumes "0 < c + lc"
  shows "generator1 [n, c, h, w] [n, lc, 1, 1] = Inr [n, 64, 2 * h, 2 * w] \<and>
         generator2 [n, 64, 2 * h, 2 * w] [n, lc, 1, 1] = Inr [n, 32, 4 * h, 4 * w] \<and>
         generator3 [n, 32, 4 * h, 4 * w] [n, lc, 1, 1] = Inr [n, 16, 8 * h, 8 * w]"
proof -
  have "genblock [n, c, h, w] 64 [n, lc, 1, 1] = Inr [n, 64, h * 2, w * 2]"
    using assms by (intro genblock_shape) simp_all
  moreover have "genblock [n, 64, 2 * h, 2 * w] 32 [n, lc, 1, 1] = Inr [n, 32, 2 * h * 2, 2 * w * 2]"
    by (intro genblock_shape) simp_all
  moreover have "genblock [n, 32, 4 * h, 4 * w] 16 [n, lc, 1, 1] = Inr [n, 16, 4 * h * 2, 4 * w * 2]"
    by (intro genblock_shape) simp_all
  ultimately show ?thesis
    by (simp add: generator1_def generator2_def generator3_def mult.commute)
qed

theorem generator_pyramid_witness:
  "generator1 [12, 64, 16, 64] [12, 6, 1, 1] = Inr [12, 64, 32, 128] \<and>
   generator2 [12, 64, 32, 128] [12, 6, 1, 1] = Inr [12, 32, 64, 256] \<and>
   generator3 [12, 32, 64, 256] [12, 6, 1, 1] = Inr [12, 16, 128, 512]"
  using generator_pyramid [of 64 6 12 16 64] by simp

lemma ceil_div_2: "ceil_div h 2 = (h + 1) div 2"
  by (simp add: ceil_div_def)

lemma ceil_div_2_ceiling: "int (ceil_div h 2) = \<lceil>real h / 2\<rceil>"
  unfolding ceil_div_2 by linarith

lemma ceil_div_2_less: "1 < h \<Longrightarrow> ceil_div h 2 < h"
  unfolding ceil_div_2 by linarith

lemma ceil_div_2_pos: "0 < h \<Longrightarrow> 0 < ceil_div h 2"
  unfolding ceil_div_2 by linarith

lemma downblock_shape:
  assumes "0 < c" and "0 < chans"
  shows "downblock [n, c, h, w] chans = Inr [n, chans, ceil_div h 2, ceil_div w 2]"
  using assms by (simp add: downblock_def and_then_def ceil_div_one tf_add_same)

lemma downsample_loop_ends:
  assumes "0 < c" and "0 < chans"
  shows "\<exists>c' w'. downsample_loop [n, c, h, w] chans i = Some (Inr [n, c', min h 1, w'])"
  using assms(1)
proof (induction h arbitrary: c w i rule: less_induct)
  case (less h)
  show ?case
  proof (cases "1 < h")
    case True
    then have "ceil_div h 2 < h" and "0 < ceil_div h 2"
      by (simp_all add: ceil_div_2_less ceil_div_2_pos)
    moreover have "0 < chans * 2 ^ i"
      using assms(2) by simp
    ultimately obtain c' w' where
      "downsample_loop [n, chans * 2 ^ i, ceil_div h 2, ceil_div w 2] chans (i + 1) =
         Some (Inr [n, c', min h 1, w'])"
      using less.IH [of "ceil_div h 2" "chans * 2 ^ i" "ceil_div w 2" "i + 1"] True
      by (auto simp add: min_def)
    moreover have "downblock [n, c, h, w] (chans * 2 ^ i) =
        Inr [n, chans * 2 ^ i, ceil_div h 2, ceil_div w 2]"
      using less.prems \<open>0 < chans * 2 ^ i\<close> by (rule downblock_shape)
    ultimately show ?thesis
      using True by (subst downsample_loop.simps) (simp add: dim_from_end_def)
  next
    case False
    then show ?thesis
      by (subst downsample_loop.simps) (simp add: dim_from_end_def min_def)
  qed
qed

lemma conv_cases:
  "(\<exists>e. conv inputs chans sh sw False = Inl e) \<or> (\<exists>n c h w. inputs = [n, c, h, w] \<and> 0 < c)"
  by (cases "(inputs, chans, sh, sw, False)" rule: conv.cases) auto

lemma downsample_first:
  assumes "0 < c"
  shows "downsample [n, c, h, w] = downsample_loop [n, 16, h, w] 16 1"
  using assms by (simp add: downsample_def and_then_def ceil_div_one tf_add_same)

lemma downsample_ends: "\<exists>r. downsample inputs = Some r"
proof -
  consider e where "conv inputs 16 1 1 False = Inl e"
    | n c h w where "inputs = [n, c, h, w]" and "0 < c"
    using conv_cases [of inputs 16 1 1] by blast
  then show ?thesis
  proof cases
    case 1
    then show ?thesis
      by (simp add: downsample_def and_then_def)
  next
    case 2
    from downsample_loop_ends [of 16 16 n h w 1] show ?thesis
      unfolding 2(1) downsample_first [OF 2(2)] by auto
  qed
qed

lemma downsample_height:
  assumes "0 < c"
  shows "\<exists>c' w'. downsample [n, c, h, w] = Some (Inr [n, c', min h 1, w'])"
  using downsample_loop_ends [of 16 16 n h w 1]
  unfolding downsample_first [OF assms] by simp

lemma encoder_loop_ends:
  assumes "0 < c"
  shows "\<exists>c' h'. encoder_loop [n, c, h, w] i = Some (Inr [n, c', h', min w 1])"
  using assms
proof (induction w arbitrary: c h i rule: less_induct)
  case (less w)
  show ?case
  proof (cases "1 < w")
    case True
    then have "ceil_div w 2 < w" and "0 < ceil_div w 2"
      by (simp_all add: ceil_div_2_less ceil_div_2_pos)
    moreover have "0 < (2::nat) ^ (i div 2 + 3)"
      by simp
    ultimately obtain c' h' where
      "encoder_loop [n, 2 ^ (i div 2 + 3), ceil_div h 2, ceil_div w 2] (i + 1) =
         Some (Inr [n, c', h', min w 1])"
      using less.IH [of "ceil_div w 2" "2 ^ (i div 2 + 3)" "ceil_div h 2" "i + 1"] True
      by (auto simp add: min_def)
    with True less.prems show ?thesis
      by (subst encoder_loop.simps) (simp add: dim_from_end_def)
  next
    case False
    then show ?thesis
      by (subst encoder_loop.simps) (simp add: dim_from_end_def min_def)
  qed
qed

lemma encoder_loop_any: "\<exists>r. encoder_loop inputs i = Some r"
proof (cases "\<exists>n c h w. inputs = [n, c, h, w] \<and> 0 < c")
  case True
  then show ?thesis
    using encoder_loop_ends by blast
next
  case False
  show ?thesis
  proof (cases "dim_from_end inputs 1")
    case (Inl e)
    then show ?thesis
      by (subst encoder_loop.simps) simp
  next
    case (Inr w)
    from False conv_cases [of inputs "2 ^ (i div 2 + 3)" 2 2]
    obtain e where "conv inputs (2 ^ (i div 2 + 3)) 2 2 False = Inl e"
      by blast
    with Inr show ?thesis
      by (subst encoder_loop.simps) simp
  qed
qed

lemma encoder_ends: "\<exists>r. encoder inputs = Some r"
  using encoder_loop_any [of inputs 0]
  by (auto simp add: encoder_def split: sum.splits)

text \<open>
  Claim C10. The \<open>while\<close> loops of downsample and encoder end on every input. Each
  round maps the size it tests, \<open>n\<close>, to the ceiling of \<open>n / 2\<close> (average pooling in
  downblock, a convolution of stride 2 in encoder, both with \<open>SAME\<close> padding, on a
  tensor with at least one channel), which is below \<open>n\<close> while \<open>n > 1\<close>; from a
  positive height, respectively width, of an image with at least one channel the loop
  leaves with that size equal to 1.
\<close>

theorem downsample_encoder_terminate:
  "(\<exists>r. downsample inputs = Some r) \<and> (\<exists>r. encoder inputs = Some r) \<and>
   (0 < c \<and> 0 < h \<longrightarrow> (\<exists>c' w'. downsample [n, c, h, w] = Some (Inr [n, c', 1, w']))) \<and>
   (0 < c \<and> 0 < w \<longrightarrow> (\<exists>c' h'. encoder_loop [n, c, h, w] 0 = Some (Inr [n, c', h', 1]))) \<and>
   (0 < c \<and> 0 < chans \<longrightarrow>
      downblock [n, c, h, w] chans = Inr [n, chans, ceil_div h 2, ceil_div w 2] \<and>
      conv [n, c, h, w] chans 2 2 False = Inr [n, chans, ceil_div h 2, ceil_div w 2]) \<and>
   int (ceil_div h 2) = \<lceil>real h / 2\<rceil> \<and>
   (1 < h \<longrightarrow> ceil_div h 2 < h)"
proof (intro conjI impI)
  show "\<exists>r. downsample inputs = Some r" by (rule downsample_ends)
  show "\<exists>r. encoder inputs = Some r" by (rule encoder_ends)
  show "downblock [n, c, h, w] chans = Inr [n, chans, ceil_div h 2, ceil_div w 2]"
    if "0 < c \<and> 0 < chans"
    using that by (simp add: downblock_shape)
  show "conv [n, c, h, w] chans 2 2 False = Inr [n, chans, ceil_div h 2, ceil_div w 2]"
    if "0 < c \<and> 0 < chans"
    using that by (simp add: conv_stride2)
  show "int (ceil_div h 2) = \<lceil>real h / 2\<rceil>" by (rule ceil_div_2_ceiling)
  show "ceil_div h 2 < h" if "1 < h" using that by (rule ceil_div_2_less)
  show "\<exists>c' w'. downsample [n, c, h, w] = Some (Inr [n, c', 1, w'])" if "0 < c \<and> 0 < h"
  proof -
    from that have "min h 1 = 1" and "0 < c" by simp_all
    with downsample_height [of c n h w] show ?thesis by simp
  qed
  show "\<exists>c' h'. encoder_loop [n, c, h, w] 0 = Some (Inr [n, c', h', 1])" if "0 < c \<and> 0 < w"
  proof -
    from that have "min w 1 = 1" and "0 < c" by simp_all
    with encoder_loop_ends [of c n h w 0] show ?thesis by simp
  qed
qed

theorem downsample_encoder_terminate_witness:
  "(\<exists>r. downsample [1, 4, 5, 3] = Some r) \<and> (\<exists>r. encoder [1, 4, 5, 3] = Some r) \<and>
   (\<exists>c' w'. downsample [1, 4, 5, 3] = Some (Inr [1, c', 1, w'])) \<and>
   (\<exists>c' h'. encoder_loop [1, 4, 5, 3] 0 = Some (Inr [1, c', h', 1])) \<and>
   downblock [1, 4, 5, 3] 8 = Inr [1, 8, 3, 2] \<and>
   conv [1, 4, 5, 3] 8 2 2 False = Inr [1, 8, 3, 2] \<and>
   ceil_div 5 2 = 3 \<and> ceil_div 5 2 < 5"
  using downsample_encoder_terminate [of "[1, 4, 5, 3]" 4 5 1 3 8]
  by (simp add: ceil_div_def)

end
